theory Spec2Isabelle
  imports Complex_Main "HOL-Library.Word"
begin

section \<open>The AudioVisualizer component as a state machine\<close>

text \<open>
  The component \<^verbatim>\<open>AudioVisualizer\<close> (AudioVisualizer.tsx) keeps React state
  (\<^verbatim>\<open>useState\<close>), mutable refs (\<^verbatim>\<open>useRef\<close>) and drives browser objects: one
  audio element, a canvas, a background layer, a Web Audio context with an analyser, the
  blob-URL registry, the console, timers and animation frames. The model puts all of
  them into one record and turns every callback of the component into a function on
  that record.

  JavaScript numbers are modelled as \<open>real\<close> (exact arithmetic), the \<^verbatim>\<open>Uint8Array\<close>
  as a list of 8-bit words, indices as \<open>int\<close> (\<open>-1\<close> is a value of the source).
  A callback created by \<^verbatim>\<open>useCallback\<close> reads the values of the render that created
  it. The event handlers and click handlers are re-created whenever one of the values
  they read changes, so they read the current state; the two callbacks that are handed
  to the platform and run later (\<^verbatim>\<open>animate\<close> through \<^verbatim>\<open>requestAnimationFrame\<close> and
  \<^verbatim>\<open>setTimeout\<close>, and the deferred \<^verbatim>\<open>playTrackFromPlaylist\<close> of \<^verbatim>\<open>addToPlaylist\<close>)
  carry the values they captured as explicit arguments.
\<close>

subsection \<open>Data\<close>

text \<open>The interface \<^verbatim>\<open>Track\<close>. The field \<^verbatim>\<open>id\<close> is \<open>track_id\<close> here (\<open>id\<close> is the
  identity function of HOL); the field \<^verbatim>\<open>file\<close> is an opaque \<^verbatim>\<open>File\<close> that no code
  reads after the track is built, and is left out.\<close>

record track =
  track_id :: real
  name :: string
  url :: string
  duration :: real

text \<open>The only exception the component can meet: \<^verbatim>\<open>createMediaElementSource\<close> throws
  \<^verbatim>\<open>InvalidStateError\<close> for an element that already has a source node.\<close>

datatype error = InvalidStateError

datatype audio_node = MediaElementSource | Analyser | Destination

datatype context_state = Suspended | Running | Closed

text \<open>The \<^verbatim>\<open>HTMLAudioElement\<close>: the attributes the component reads and writes, whether a
  \<^verbatim>\<open>MediaElementAudioSourceNode\<close> is already bound to it, whether the platform lets a
  call of \<^verbatim>\<open>play()\<close> through, the resources \<^verbatim>\<open>load()\<close> was called on, the number of
  calls of \<^verbatim>\<open>play()\<close> and the number of registered \<^verbatim>\<open>loadeddata\<close> listeners.\<close>

record audio_element =
  src :: string
  paused :: bool
  ended :: bool
  currentTime :: real
  hasSourceNode :: bool
  autoplayAllowed :: bool
  loadCalls :: "string list"
  playCalls :: nat
  loadeddataListeners :: nat

record analyser =
  fftSize :: nat

text \<open>A filled bar: x, y, width, height and hue.\<close>

type_synonym rect = "real \<times> real \<times> real \<times> real \<times> real"

text \<open>The canvas; \<open>ctx2d\<close> says that \<^verbatim>\<open>getContext('2d')\<close> is not null, \<open>rects\<close> is what
  is drawn on it.\<close>

record canvas =
  width :: real
  height :: real
  ctx2d :: bool
  rects :: "rect list"

text \<open>What the callback \<^verbatim>\<open>animate\<close> captures: its dependency list
  \<^verbatim>\<open>[vw, vh, vibrationEnabled]\<close>.\<close>

record closure =
  c_vw :: real
  c_vh :: real
  c_vibrationEnabled :: bool

text \<open>The two kinds of \<^verbatim>\<open>setTimeout\<close> callbacks: the delayed start of the render loop
  in \<^verbatim>\<open>handlePlay\<close>, and the deferred \<^verbatim>\<open>playTrackFromPlaylist(newPlaylist.length - 1)\<close>
  of \<^verbatim>\<open>addToPlaylist\<close>, with the playlist its \<^verbatim>\<open>playTrackFromPlaylist\<close> captured.\<close>

datatype timer = StartLoop closure | AutoPlay "track list" int

record state =
  audioRef :: "audio_element option"
  canvasRef :: "canvas option"
  backgroundRef :: "(real \<times> real) option"
  audioContextRef :: "context_state option"
  analyserRef :: "analyser option"
  sourceRef :: "audio_node option"
  animationIdRef :: "nat option"
  isSourceCreatedRef :: bool
  dataArrayRef :: "8 word list option"
  bufferLengthRef :: nat
  playlist :: "track list"
  currentTrackIndex :: int
  loopTrack :: bool
  loopPlaylist :: bool
  vibrationEnabled :: bool
  playlistCollapsed :: bool
  vw :: real
  vh :: real
  connections :: "(audio_node \<times> audio_node) list"
  console :: "string list"
  revoked :: "string list"
  timers :: "timer list"
  frames :: "(nat \<times> closure) list"
  nextFrameId :: nat

text \<open>
  \<open>backgroundRef\<close> holds the offset of \<^verbatim>\<open>style.transform = translate(x px, y px)\<close>
  of the background layer; \<open>connections\<close> lists the calls of \<^verbatim>\<open>connect\<close> in order (the
  graph of the platform is the set of these pairs: connecting a pair again changes
  nothing there); \<open>revoked\<close> lists the calls of \<^verbatim>\<open>URL.revokeObjectURL\<close> in order;
  \<open>frames\<close> are the pending animation frames with the callback they will run.
\<close>

subsection \<open>Platform operations\<close>

definition startsWith :: "string \<Rightarrow> string \<Rightarrow> bool" where
  "startsWith s p = (take (length p) s = p)"

fun findIndex_from :: "('a \<Rightarrow> bool) \<Rightarrow> 'a list \<Rightarrow> int \<Rightarrow> int" where
  "findIndex_from P [] i = - 1"
| "findIndex_from P (x # xs) i = (if P x then i else findIndex_from P xs (i + 1))"

definition findIndex :: "('a \<Rightarrow> bool) \<Rightarrow> 'a list \<Rightarrow> int" where
  "findIndex P xs = findIndex_from P xs 0"

text \<open>JavaScript truthiness of \<^verbatim>\<open>animationIdRef.current\<close> (\<^verbatim>\<open>number | null\<close>).\<close>

definition truthy :: "nat option \<Rightarrow> bool" where
  "truthy r = (case r of None \<Rightarrow> False | Some n \<Rightarrow> n \<noteq> 0)"

definition requestAnimationFrame :: "closure \<Rightarrow> state \<Rightarrow> nat \<times> state" where
  "requestAnimationFrame cb s =
     (nextFrameId s,
      s\<lparr>frames := frames s @ [(nextFrameId s, cb)], nextFrameId := Suc (nextFrameId s)\<rparr>)"

definition cancelAnimationFrame :: "nat \<Rightarrow> state \<Rightarrow> state" where
  "cancelAnimationFrame h s = s\<lparr>frames := filter (\<lambda>f. fst f \<noteq> h) (frames s)\<rparr>"

definition revokeObjectURL :: "string \<Rightarrow> state \<Rightarrow> state" where
  "revokeObjectURL u s = s\<lparr>revoked := revoked s @ [u]\<rparr>"

definition pause :: "audio_element \<Rightarrow> audio_element" where
  "pause a = a\<lparr>paused := True\<rparr>"

text \<open>\<^verbatim>\<open>audio.currentTime = 0\<close>: a seek to the start, after which the element is not
  ended.\<close>

definition seekToStart :: "audio_element \<Rightarrow> audio_element" where
  "seekToStart a = a\<lparr>currentTime := 0, ended := False\<rparr>"

definition load :: "audio_element \<Rightarrow> audio_element" where
  "load a = a\<lparr>loadCalls := loadCalls a @ [src a], paused := True, ended := False,
               currentTime := 0\<rparr>"

text \<open>\<^verbatim>\<open>audio.play().catch(e => console.log('Auto-play prevented:', e))\<close>: the call
  either starts playback or is rejected by the platform, and the rejection is logged.\<close>

definition play :: "state \<Rightarrow> state" where
  "play s =
     (case audioRef s of
        None \<Rightarrow> s
      | Some a \<Rightarrow>
          if autoplayAllowed a
          then s\<lparr>audioRef := Some (a\<lparr>paused := False, ended := False,
                    currentTime := (if ended a then 0 else currentTime a),
                    playCalls := Suc (playCalls a)\<rparr>)\<rparr>
          else s\<lparr>audioRef := Some (a\<lparr>playCalls := Suc (playCalls a)\<rparr>),
                 console := console s @ [''Auto-play prevented:'']\<rparr>)"

definition createMediaElementSource :: "audio_element \<Rightarrow> error + audio_element" where
  "createMediaElementSource a =
     (if hasSourceNode a then Inl InvalidStateError else Inr (a\<lparr>hasSourceNode := True\<rparr>))"

text \<open>\<^verbatim>\<open>connect\<close> between nodes of one context does not throw.\<close>

definition connect :: "audio_node \<Rightarrow> audio_node \<Rightarrow> state \<Rightarrow> state" where
  "connect a b s = s\<lparr>connections := connections s @ [(a, b)]\<rparr>"

definition frequencyBinCount :: "analyser \<Rightarrow> nat" where
  "frequencyBinCount a = fftSize a div 2"

text \<open>\<^verbatim>\<open>analyser.getByteFrequencyData(dataArray)\<close> overwrites the array with the
  spectrum of the moment, as far as both reach.\<close>

definition getByteFrequencyData :: "8 word list \<Rightarrow> 8 word list \<Rightarrow> 8 word list" where
  "getByteFrequencyData spectrum dataArray =
     take (length dataArray) spectrum @ drop (length spectrum) dataArray"

subsection \<open>The callbacks of the component\<close>

definition setupAudioSource :: "state \<Rightarrow> error + state" where
  "setupAudioSource s =
     (case audioRef s of
        None \<Rightarrow> Inr s
      | Some audio \<Rightarrow>
     (case audioContextRef s of
        None \<Rightarrow> Inr s
      | Some audioContext \<Rightarrow>
     (case analyserRef s of
        None \<Rightarrow> Inr s
      | Some an \<Rightarrow>
          if \<not> isSourceCreatedRef s \<and> src audio \<noteq> []
          then (case createMediaElementSource audio of
                  Inr audio' \<Rightarrow>
                    (let s1 = connect MediaElementSource Analyser (s\<lparr>audioRef := Some audio'\<rparr>);
                         s2 = connect Analyser Destination s1
                     in Inr (s2\<lparr>sourceRef := Some MediaElementSource,
                               isSourceCreatedRef := True,
                               console := console s2 @ [''Audio source connected successfully'']\<rparr>))
                | Inl e \<Rightarrow>
                    (let s1 = s\<lparr>console := console s @ [''Error creating audio source:'']\<rparr>
                     in Inr (connect Analyser Destination s1)))
          else Inr s)))"

text \<open>\<^verbatim>\<open>audioContext.resume()\<close> is taken to succeed and to take effect at once; the
  message of its \<^verbatim>\<open>then\<close> callback is logged with it.\<close>

definition ensureAudioContextActive :: "state \<Rightarrow> state" where
  "ensureAudioContextActive s =
     (case audioContextRef s of
        Some Suspended \<Rightarrow>
          s\<lparr>audioContextRef := Some Running, console := console s @ [''Audio context resumed'']\<rparr>
      | _ \<Rightarrow> s)"

text \<open>\<^verbatim>\<open>ctx.clearRect(0, 0, vw, vh)\<close>: the canvas has the size \<^verbatim>\<open>vw\<close> by \<^verbatim>\<open>vh\<close> (the
  resize handler and the canvas effect keep it so), hence the call empties it.\<close>

definition clearRect :: "canvas \<Rightarrow> canvas" where
  "clearRect c = c\<lparr>rects := []\<rparr>"

definition stopAnimation :: "state \<Rightarrow> state" where
  "stopAnimation s =
     (let s1 = (case animationIdRef s of
                  None \<Rightarrow> s
                | Some h \<Rightarrow> if h \<noteq> 0 then (cancelAnimationFrame h s)\<lparr>animationIdRef := None\<rparr> else s);
          s2 = (case canvasRef s1 of
                  None \<Rightarrow> s1
                | Some c \<Rightarrow> if ctx2d c then s1\<lparr>canvasRef := Some (clearRect c)\<rparr> else s1)
      in (case backgroundRef s2 of
            None \<Rightarrow> s2
          | Some b \<Rightarrow> s2\<lparr>backgroundRef := Some (0, 0)\<rparr>))"

text \<open>The bars of one frame: the loop over \<^verbatim>\<open>i < bufferLengthRef.current\<close>.\<close>

definition bars :: "closure \<Rightarrow> nat \<Rightarrow> 8 word list \<Rightarrow> rect list" where
  "bars cl n dataArray =
     map (\<lambda>i. (let barWidth = (c_vw cl / real n) * 2.5;
                    barHeight = real (unat (dataArray ! i));
                    hue = (real i / real n) * 360
                in (real i * (barWidth + 1), c_vh cl - barHeight, barWidth, barHeight, hue)))
         [0..<n]"

text \<open>The vibration of one frame; \<open>r1\<close> and \<open>r2\<close> are the two values of
  \<^verbatim>\<open>Math.random()\<close>.\<close>

definition maxVibration :: real where
  "maxVibration = 10"

definition intensity :: "8 word list \<Rightarrow> nat \<Rightarrow> real" where
  "intensity dataArray n =
     (let average = real (sum_list (map unat dataArray)) / real n
      in (average / 255) * maxVibration)"

definition shake :: "8 word list \<Rightarrow> nat \<Rightarrow> real \<Rightarrow> real \<Rightarrow> real \<times> real" where
  "shake dataArray n r1 r2 =
     (let shakeX = (r1 - 0.5) * 2 * intensity dataArray n;
          shakeY = (r2 - 0.5) * 2 * intensity dataArray n
      in (shakeX, shakeY))"

definition animate :: "closure \<Rightarrow> 8 word list \<Rightarrow> real \<Rightarrow> real \<Rightarrow> state \<Rightarrow> state" where
  "animate cl spectrum r1 r2 s =
     (case audioRef s of
        None \<Rightarrow> s
      | Some audio \<Rightarrow>
     (case canvasRef s of
        None \<Rightarrow> s
      | Some cv \<Rightarrow>
     (case analyserRef s of
        None \<Rightarrow> s
      | Some an \<Rightarrow>
     (case dataArrayRef s of
        None \<Rightarrow> s
      | Some dataArray \<Rightarrow>
          if \<not> ctx2d cv then s
          else if \<not> paused audio \<and> \<not> ended audio
          then (let (h, s1) = requestAnimationFrame cl s;
                    s2 = s1\<lparr>animationIdRef := Some h\<rparr>;
                    s3 = (if audioContextRef s2 = Some Suspended
                          then s2\<lparr>audioContextRef := Some Running\<rparr> else s2);
                    dataArray' = getByteFrequencyData spectrum dataArray;
                    s4 = s3\<lparr>dataArrayRef := Some dataArray',
                            canvasRef := Some ((clearRect cv)\<lparr>rects := bars cl (bufferLengthRef s3) dataArray'\<rparr>)\<rparr>
                in (case backgroundRef s4 of
                      None \<Rightarrow> s4
                    | Some b \<Rightarrow>
                        if c_vibrationEnabled cl
                        then s4\<lparr>backgroundRef := Some (shake dataArray' (bufferLengthRef s4) r1 r2)\<rparr>
                        else s4\<lparr>backgroundRef := Some (0, 0)\<rparr>))
          else stopAnimation s))))"

text \<open>\<^verbatim>\<open>playTrackFromPlaylist\<close>; \<open>pl\<close> is the playlist the callback captured.\<close>

definition playTrackFromPlaylist :: "track list \<Rightarrow> int \<Rightarrow> state \<Rightarrow> state" where
  "playTrackFromPlaylist pl index s =
     (if index \<ge> 0 \<and> index < int (length pl)
      then (let track = pl ! nat index in
            case audioRef s of
              None \<Rightarrow> s
            | Some audio0 \<Rightarrow>
                (let s1 = stopAnimation (s\<lparr>currentTrackIndex := index\<rparr>);
                     audio1 = seekToStart (pause audio0);
                     s2 = (if src audio1 \<noteq> [] \<and> startsWith (src audio1) ''blob:''
                           then revokeObjectURL (src audio1) s1 else s1);
                     audio2 = load (audio1\<lparr>src := url track\<rparr>);
                     s3 = ensureAudioContextActive (s2\<lparr>audioRef := Some audio2\<rparr>)
                 in (case audioRef s3 of
                       None \<Rightarrow> s3
                     | Some a \<Rightarrow>
                         s3\<lparr>audioRef := Some (a\<lparr>loadeddataListeners := Suc (loadeddataListeners a)\<rparr>)\<rparr>)))
      else s)"

text \<open>The listener \<^verbatim>\<open>handleLoadedData\<close> that \<^verbatim>\<open>playTrackFromPlaylist\<close> registers.\<close>

definition handleLoadedData :: "state \<Rightarrow> error + state" where
  "handleLoadedData s =
     (case setupAudioSource s of
        Inl e \<Rightarrow> Inl e
      | Inr s1 \<Rightarrow> Inr (play s1))"

definition currentClosure :: "state \<Rightarrow> closure" where
  "currentClosure s = \<lparr>c_vw = vw s, c_vh = vh s, c_vibrationEnabled = vibrationEnabled s\<rparr>"

definition handlePlay :: "state \<Rightarrow> error + state" where
  "handlePlay s =
     (case setupAudioSource (ensureAudioContextActive s) of
        Inl e \<Rightarrow> Inl e
      | Inr s1 \<Rightarrow> Inr (s1\<lparr>timers := timers s1 @ [StartLoop (currentClosure s1)]\<rparr>))"

text \<open>The callback of the \<^verbatim>\<open>setTimeout\<close> in \<^verbatim>\<open>handlePlay\<close>.\<close>

definition handlePlay_timeout :: "closure \<Rightarrow> 8 word list \<Rightarrow> real \<Rightarrow> real \<Rightarrow> state \<Rightarrow> state" where
  "handlePlay_timeout cl spectrum r1 r2 s =
     (if \<not> truthy (animationIdRef s) then animate cl spectrum r1 r2 s else s)"

definition handlePause :: "state \<Rightarrow> state" where
  "handlePause s = stopAnimation s"

definition handleEnded :: "state \<Rightarrow> state" where
  "handleEnded s0 =
     (let s = stopAnimation s0 in
      if loopTrack s \<and> currentTrackIndex s \<ge> 0
      then play (s\<lparr>audioRef := map_option seekToStart (audioRef s)\<rparr>)
      else if loopPlaylist s \<and> length (playlist s) > 0
      then (if currentTrackIndex s \<ge> 0 \<and> currentTrackIndex s < int (length (playlist s)) - 1
            then playTrackFromPlaylist (playlist s) (currentTrackIndex s + 1) s
            else playTrackFromPlaylist (playlist s) 0 s)
      else (if currentTrackIndex s \<ge> 0 \<and> currentTrackIndex s < int (length (playlist s)) - 1
            then playTrackFromPlaylist (playlist s) (currentTrackIndex s + 1) s
            else s\<lparr>currentTrackIndex := - 1\<rparr>))"

text \<open>\<^verbatim>\<open>addToPlaylist\<close>; \<open>i\<close> is the value of \<^verbatim>\<open>Date.now() + Math.random()\<close>, \<open>n\<close> the
  name of the file.\<close>

definition addToPlaylist :: "real \<Rightarrow> string \<Rightarrow> string \<Rightarrow> state \<Rightarrow> state" where
  "addToPlaylist i n u s =
     (let track = \<lparr>track_id = i, name = n, url = u, duration = 0\<rparr>;
          prev = playlist s;
          newPlaylist = prev @ [track];
          s1 = (if currentTrackIndex s = - 1 \<and> length prev = 0
                then s\<lparr>timers := timers s @ [AutoPlay (playlist s) (int (length newPlaylist) - 1)]\<rparr>
                else s)
      in s1\<lparr>playlist := newPlaylist\<rparr>)"

text \<open>The \<^verbatim>\<open>loadedmetadata\<close> listener of \<^verbatim>\<open>addToPlaylist\<close>.\<close>

definition handleLoadedMetadata :: "real \<Rightarrow> real \<Rightarrow> state \<Rightarrow> state" where
  "handleLoadedMetadata i d s =
     s\<lparr>playlist := map (\<lambda>t. if track_id t = i then t\<lparr>duration := d\<rparr> else t) (playlist s)\<rparr>"

definition removeFromPlaylist :: "real \<Rightarrow> state \<Rightarrow> state" where
  "removeFromPlaylist trackId s =
     (let prev = playlist s;
          index = findIndex (\<lambda>t. track_id t = trackId) prev
      in if index = - 1 then s
         else (let track = prev ! nat index;
                   s1 = (if startsWith (url track) ''blob:'' then revokeObjectURL (url track) s else s);
                   newPlaylist = filter (\<lambda>t. track_id t \<noteq> trackId) prev;
                   s2 = (if currentTrackIndex s = index
                         then stopAnimation
                                (s1\<lparr>audioRef := map_option pause (audioRef s1),
                                    currentTrackIndex := - 1\<rparr>)
                         else if currentTrackIndex s > index
                         then s1\<lparr>currentTrackIndex := currentTrackIndex s1 - 1\<rparr>
                         else s1)
               in s2\<lparr>playlist := newPlaylist\<rparr>))"

text \<open>The click handlers of the three toggle buttons.\<close>

definition loopTrackBtn_onClick :: "state \<Rightarrow> state" where
  "loopTrackBtn_onClick s =
     (let s1 = s\<lparr>loopTrack := \<not> loopTrack s\<rparr>
      in if \<not> loopTrack s then s1\<lparr>loopPlaylist := False\<rparr> else s1)"

definition loopPlaylistBtn_onClick :: "state \<Rightarrow> state" where
  "loopPlaylistBtn_onClick s =
     (let s1 = s\<lparr>loopPlaylist := \<not> loopPlaylist s\<rparr>
      in if \<not> loopPlaylist s then s1\<lparr>loopTrack := False\<rparr> else s1)"

definition vibrationToggleBtn_onClick :: "state \<Rightarrow> state" where
  "vibrationToggleBtn_onClick s = s\<lparr>vibrationEnabled := \<not> vibrationEnabled s\<rparr>"

definition playlistToggle_onClick :: "state \<Rightarrow> state" where
  "playlistToggle_onClick s = s\<lparr>playlistCollapsed := \<not> playlistCollapsed s\<rparr>"

text \<open>\<^verbatim>\<open>handleResize\<close> with the canvas effect; a canvas that is resized is emptied.\<close>

definition handleResize :: "real \<Rightarrow> real \<Rightarrow> state \<Rightarrow> state" where
  "handleResize w h s =
     (s\<lparr>vw := w, vh := h,
        canvasRef := map_option (\<lambda>c. c\<lparr>width := w, height := h, rects := []\<rparr>) (canvasRef s)\<rparr>)"

subsection \<open>Events\<close>

text \<open>Everything that can run a callback of the component: the events of the audio
  element, a timer or an animation frame coming due (with the spectrum the analyser
  holds and the two random numbers of that frame), the clicks, an upload (with the id,
  name and blob URL of the new track), and a resize. \<open>ElementStatus\<close> is the browser
  changing \<^verbatim>\<open>paused\<close> and \<^verbatim>\<open>ended\<close> of the element on its own (playback reaching the
  end, the native controls).\<close>

datatype event =
    Play
  | Pause
  | Ended
  | LoadedData
  | ElementStatus bool bool
  | Timeout nat "8 word list" real real
  | AnimationFrame "8 word list" real real
  | ClickTrack int
  | ClickRemove real
  | ClickLoopTrack
  | ClickLoopPlaylist
  | ClickVibration
  | ClickPlaylistToggle
  | Upload real string string
  | LoadedMetadata real real
  | Resize real real

text \<open>A handler that ends with an exception leaves the state as it found it.\<close>

definition settle :: "state \<Rightarrow> error + state \<Rightarrow> state" where
  "settle s r = (case r of Inl e \<Rightarrow> s | Inr s' \<Rightarrow> s')"

fun fireLoadedData :: "nat \<Rightarrow> state \<Rightarrow> state" where
  "fireLoadedData 0 s = s"
| "fireLoadedData (Suc n) s = fireLoadedData n (settle s (handleLoadedData s))"

definition fireTimer :: "timer \<Rightarrow> 8 word list \<Rightarrow> real \<Rightarrow> real \<Rightarrow> state \<Rightarrow> state" where
  "fireTimer t spectrum r1 r2 s =
     (case t of
        StartLoop cl \<Rightarrow> handlePlay_timeout cl spectrum r1 r2 s
      | AutoPlay pl i \<Rightarrow> playTrackFromPlaylist pl i s)"

fun step :: "event \<Rightarrow> state \<Rightarrow> state" where
  "step Play s = (case audioRef s of None \<Rightarrow> s | Some a \<Rightarrow> settle s (handlePlay s))"
| "step Pause s = (case audioRef s of None \<Rightarrow> s | Some a \<Rightarrow> handlePause s)"
| "step Ended s = (case audioRef s of None \<Rightarrow> s | Some a \<Rightarrow> handleEnded s)"
| "step LoadedData s =
     (case audioRef s of
        None \<Rightarrow> s
      | Some a \<Rightarrow>
          fireLoadedData (loadeddataListeners a)
            (s\<lparr>audioRef := Some (a\<lparr>loadeddataListeners := 0\<rparr>)\<rparr>))"
| "step (ElementStatus p e) s =
     s\<lparr>audioRef := map_option (\<lambda>a. a\<lparr>paused := p, ended := e\<rparr>) (audioRef s)\<rparr>"
| "step (Timeout k spectrum r1 r2) s =
     (if k < length (timers s)
      then fireTimer (timers s ! k) spectrum r1 r2
             (s\<lparr>timers := take k (timers s) @ drop (Suc k) (timers s)\<rparr>)
      else s)"
| "step (AnimationFrame spectrum r1 r2) s =
     (case frames s of
        [] \<Rightarrow> s
      | f # fs \<Rightarrow> animate (snd f) spectrum r1 r2 (s\<lparr>frames := fs\<rparr>))"
| "step (ClickTrack i) s = playTrackFromPlaylist (playlist s) i s"
| "step (ClickRemove i) s = removeFromPlaylist i s"
| "step ClickLoopTrack s = loopTrackBtn_onClick s"
| "step ClickLoopPlaylist s = loopPlaylistBtn_onClick s"
| "step ClickVibration s = vibrationToggleBtn_onClick s"
| "step ClickPlaylistToggle s = playlistToggle_onClick s"
| "step (Upload i n u) s = addToPlaylist i n u s"
| "step (LoadedMetadata i d) s = handleLoadedMetadata i d s"
| "step (Resize w h) s = handleResize w h s"

fun run :: "event list \<Rightarrow> state \<Rightarrow> state" where
  "run [] s = s"
| "run (e # es) s = run es (step e s)"

text \<open>The component after its first render and its effects: the initial values of
  \<^verbatim>\<open>useState\<close> and \<^verbatim>\<open>useRef\<close>, the refs of the three elements, and the context,
  analyser (\<^verbatim>\<open>fftSize = 256\<close>) and data array of the set-up effect. \<open>w\<close> and \<open>h\<close>
  are the size of the window, \<open>ap\<close> says whether the platform lets \<^verbatim>\<open>play()\<close>
  through.\<close>

definition mounted :: "real \<Rightarrow> real \<Rightarrow> bool \<Rightarrow> state" where
  "mounted w h ap =
     (let an = \<lparr>fftSize = 256\<rparr>; bufferLength = frequencyBinCount an in
      \<lparr>audioRef = Some \<lparr>src = [], paused = True, ended = False, currentTime = 0,
                          hasSourceNode = False, autoplayAllowed = ap, loadCalls = [],
                          playCalls = 0, loadeddataListeners = 0\<rparr>,
        canvasRef = Some \<lparr>width = w, height = h, ctx2d = True, rects = []\<rparr>,
        backgroundRef = Some (0, 0),
        audioContextRef = Some Suspended,
        analyserRef = Some an,
        sourceRef = None,
        animationIdRef = None,
        isSourceCreatedRef = False,
        dataArrayRef = Some (replicate bufferLength 0),
        bufferLengthRef = bufferLength,
        playlist = [],
        currentTrackIndex = - 1,
        loopTrack = False,
        loopPlaylist = False,
        vibrationEnabled = True,
        playlistCollapsed = False,
        vw = w,
        vh = h,
        connections = [],
        console = [],
        revoked = [],
        timers = [],
        frames = [],
        nextFrameId = 1\<rparr>)"

text \<open>\<^verbatim>\<open>setupAudioSource\<close> called \<open>n\<close> times in a row.\<close>

fun setupAudioSource_times :: "nat \<Rightarrow> state \<Rightarrow> error + state" where
  "setupAudioSource_times 0 s = Inr s"
| "setupAudioSource_times (Suc n) s =
     (case setupAudioSource s of Inl e \<Rightarrow> Inl e | Inr s' \<Rightarrow> setupAudioSource_times n s')"

text \<open>An element that carries a source and that another party has already bound to a
  source node, in the component as mounted.\<close>

definition instrumented :: state where
  "instrumented =
     (mounted 800 600 True)
       \<lparr>audioRef := Some \<lparr>src = ''blob:a'', paused = True, ended = False, currentTime = 0,
                          hasSourceNode = True, autoplayAllowed = True, loadCalls = [],
                          playCalls = 0, loadeddataListeners = 0\<rparr>\<rparr>"

text \<open>The same element before anyone has bound it.\<close>

definition loaded :: state where
  "loaded =
     (mounted 800 600 True)
       \<lparr>audioRef := Some \<lparr>src = ''blob:a'', paused = True, ended = False, currentTime = 0,
                          hasSourceNode = False, autoplayAllowed = True, loadCalls = [],
                          playCalls = 0, loadeddataListeners = 0\<rparr>\<rparr>"

subsection \<open>Predicates and example states for the properties\<close>

text \<open>The two loop flags together.\<close>

definition loopFlags :: "state \<Rightarrow> bool \<times> bool" where
  "loopFlags s = (loopTrack s, loopPlaylist s)"

definition exclusive :: "state \<Rightarrow> bool" where
  "exclusive s = (\<not> (loopTrack s \<and> loopPlaylist s))"

text \<open>Against an element \<open>a\<close> before a call: the element now has the resource of track
  \<open>t\<close> as its source, \<^verbatim>\<open>load()\<close> has been called once more, on that resource, and
  \<^verbatim>\<open>play()\<close> has not been called.\<close>

definition startsLoading :: "audio_element \<Rightarrow> state \<Rightarrow> track \<Rightarrow> bool" where
  "startsLoading a s' t =
     (case audioRef s' of
        None \<Rightarrow> False
      | Some a' \<Rightarrow> src a' = url t \<and> loadCalls a' = loadCalls a @ [url t]
                    \<and> playCalls a' = playCalls a)"

text \<open>Against an element \<open>a\<close> before a call: the element has the same source, nothing
  new is loaded, the position is 0 and \<^verbatim>\<open>play()\<close> has been called once more.\<close>

definition restarts :: "audio_element \<Rightarrow> state \<Rightarrow> bool" where
  "restarts a s' =
     (case audioRef s' of
        None \<Rightarrow> False
      | Some a' \<Rightarrow> src a' = src a \<and> loadCalls a' = loadCalls a \<and> currentTime a' = 0
                    \<and> playCalls a' = Suc (playCalls a))"

text \<open>The invariant of the render loop: at most one animation frame is pending, a
  pending frame is the one whose handle \<^verbatim>\<open>animationIdRef\<close> holds, and handles are not 0
  (the platform hands out positive handles).\<close>

definition framesOk :: "state \<Rightarrow> bool" where
  "framesOk s =
     (length (frames s) \<le> 1
      \<and> list_all (\<lambda>f. animationIdRef s = Some (fst f) \<and> fst f \<noteq> 0) (frames s)
      \<and> nextFrameId s \<noteq> 0)"

text \<open>The render loop is stopped: no frame is pending, no handle is held, the canvas is
  empty and the background has offset zero.\<close>

definition idle :: "state \<Rightarrow> bool" where
  "idle s =
     (frames s = [] \<and> \<not> truthy (animationIdRef s)
      \<and> map_option rects (canvasRef s) = Some [] \<and> backgroundRef s = Some (0, 0))"

text \<open>The selected index is \<open>-1\<close> or an index into the playlist.\<close>

definition validSelection :: "state \<Rightarrow> bool" where
  "validSelection s =
     (currentTrackIndex s = - 1
      \<or> (0 \<le> currentTrackIndex s \<and> currentTrackIndex s < int (length (playlist s))))"

definition trackA :: track where
  "trackA = \<lparr>track_id = 1, name = ''a.mp3'', url = ''blob:a'', duration = 0\<rparr>"

definition trackB :: track where
  "trackB = \<lparr>track_id = 2, name = ''b.mp3'', url = ''blob:b'', duration = 0\<rparr>"

definition trackC :: track where
  "trackC = \<lparr>track_id = 3, name = ''c.mp3'', url = ''blob:c'', duration = 0\<rparr>"

text \<open>The component with playlist \<open>pl\<close>, in which the selected track \<open>i\<close> has played to
  its end, with the loop flags \<open>lt\<close> and \<open>lp\<close>.\<close>

definition playedAt :: "track list \<Rightarrow> int \<Rightarrow> bool \<Rightarrow> bool \<Rightarrow> state" where
  "playedAt pl i lt lp =
     (mounted 800 600 True)
       \<lparr>audioRef := Some \<lparr>src = url (pl ! nat i), paused = False, ended = True,
                          currentTime = 180, hasSourceNode = True, autoplayAllowed = True,
                          loadCalls = [url (pl ! nat i)], playCalls = 1,
                          loadeddataListeners = 0\<rparr>,
        audioContextRef := Some Running,
        sourceRef := Some MediaElementSource,
        isSourceCreatedRef := True,
        playlist := pl,
        currentTrackIndex := i,
        loopTrack := lt,
        loopPlaylist := lp,
        connections := [(MediaElementSource, Analyser), (Analyser, Destination)]\<rparr>"

text \<open>Two tracks are uploaded, the first is selected, loads and plays, and is then
  removed: the playlist keeps the second track, nothing is selected, and the element
  still has the source of the removed track. The native controls of the element start
  it again and it plays to its end: this is the state in which \<^verbatim>\<open>ended\<close> fires.\<close>

definition deselected :: state where
  "deselected =
     run [Upload 1 ''a.mp3'' ''blob:a'', Upload 2 ''b.mp3'' ''blob:b'', ClickTrack 0, LoadedData,
          ClickRemove 1, ElementStatus False True]
       (mounted 800 600 True)"

text \<open>A spectrum with every one of the 128 bins at full scale.\<close>

definition fullScale :: "8 word list" where
  "fullScale = replicate 128 255"

text \<open>A track is uploaded and selected, its data arrive, playback starts, and the timer
  of \<^verbatim>\<open>handlePlay\<close> comes due: the render loop is running, with vibration enabled.
  (The first timer is the deferred call of \<^verbatim>\<open>addToPlaylist\<close>, the second the one of
  \<^verbatim>\<open>handlePlay\<close>.)\<close>

definition running :: state where
  "running =
     run [Upload 1 ''a.mp3'' ''blob:a'', ClickTrack 0, LoadedData, Play,
          Timeout 1 fullScale (1 / 4) (3 / 4)]
       (mounted 800 600 True)"

text \<open>The vibration button is clicked while the render loop is running.\<close>

definition toggledWhileRunning :: state where
  "toggledWhileRunning = step ClickVibration running"

text \<open>Two tracks are uploaded, the first is selected, then the second.\<close>

definition switched :: state where
  "switched =
     run [Upload 1 ''a.mp3'' ''blob:a'', Upload 2 ''b.mp3'' ''blob:b'', ClickTrack 0, ClickTrack 1]
       (mounted 800 600 True)"
section \<open>Properties\<close>

subsection \<open>What the building blocks leave alone\<close>

lemmas eval_defs =
  mounted_def frequencyBinCount_def addToPlaylist_def playTrackFromPlaylist_def
  removeFromPlaylist_def stopAnimation_def cancelAnimationFrame_def clearRect_def
  revokeObjectURL_def ensureAudioContextActive_def startsWith_def findIndex_def
  pause_def seekToStart_def load_def play_def handleEnded_def Let_def

lemma stopAnimation_fields:
  "audioRef (stopAnimation s) = audioRef s"
  "audioContextRef (stopAnimation s) = audioContextRef s"
  "analyserRef (stopAnimation s) = analyserRef s"
  "sourceRef (stopAnimation s) = sourceRef s"
  "isSourceCreatedRef (stopAnimation s) = isSourceCreatedRef s"
  "dataArrayRef (stopAnimation s) = dataArrayRef s"
  "bufferLengthRef (stopAnimation s) = bufferLengthRef s"
  "playlist (stopAnimation s) = playlist s"
  "currentTrackIndex (stopAnimation s) = currentTrackIndex s"
  "loopTrack (stopAnimation s) = loopTrack s"
  "loopPlaylist (stopAnimation s) = loopPlaylist s"
  "vibrationEnabled (stopAnimation s) = vibrationEnabled s"
  "playlistCollapsed (stopAnimation s) = playlistCollapsed s"
  "vw (stopAnimation s) = vw s"
  "vh (stopAnimation s) = vh s"
  "connections (stopAnimation s) = connections s"
  "console (stopAnimation s) = console s"
  "revoked (stopAnimation s) = revoked s"
  "timers (stopAnimation s) = timers s"
  "nextFrameId (stopAnimation s) = nextFrameId s"
  by (simp_all add: stopAnimation_def cancelAnimationFrame_def Let_def split: option.splits)

lemma ensureAudioContextActive_fields:
  "audioRef (ensureAudioContextActive s) = audioRef s"
  "playlist (ensureAudioContextActive s) = playlist s"
  "currentTrackIndex (ensureAudioContextActive s) = currentTrackIndex s"
  "revoked (ensureAudioContextActive s) = revoked s"
  "frames (ensureAudioContextActive s) = frames s"
  "animationIdRef (ensureAudioContextActive s) = animationIdRef s"
  "canvasRef (ensureAudioContextActive s) = canvasRef s"
  "backgroundRef (ensureAudioContextActive s) = backgroundRef s"
  "nextFrameId (ensureAudioContextActive s) = nextFrameId s"
  "loopTrack (ensureAudioContextActive s) = loopTrack s"
  "loopPlaylist (ensureAudioContextActive s) = loopPlaylist s"
  by (simp_all add: ensureAudioContextActive_def split: option.splits context_state.splits)

lemma play_fields:
  "playlist (play s) = playlist s"
  "currentTrackIndex (play s) = currentTrackIndex s"
  "frames (play s) = frames s"
  "animationIdRef (play s) = animationIdRef s"
  "nextFrameId (play s) = nextFrameId s"
  "loopTrack (play s) = loopTrack s"
  "loopPlaylist (play s) = loopPlaylist s"
  by (simp_all add: play_def split: option.splits)

lemma setupAudioSource_fields:
  assumes "setupAudioSource s = Inr s'"
  shows "playlist s' = playlist s"
    and "currentTrackIndex s' = currentTrackIndex s"
    and "frames s' = frames s"
    and "animationIdRef s' = animationIdRef s"
    and "nextFrameId s' = nextFrameId s"
    and "loopTrack s' = loopTrack s"
    and "loopPlaylist s' = loopPlaylist s"
  using assms
  by (auto simp: setupAudioSource_def connect_def Let_def
      split: option.splits sum.splits if_splits)

lemma stopAnimation_frames:
  assumes "list_all (\<lambda>f. animationIdRef s = Some (fst f) \<and> fst f \<noteq> 0) (frames s)"
  shows "frames (stopAnimation s) = []"
proof (cases "frames s")
  case Nil
  then show ?thesis
    by (simp add: stopAnimation_def cancelAnimationFrame_def Let_def split: option.splits)
next
  case (Cons f fs)
  with assms have r: "animationIdRef s = Some (fst f)" "fst f \<noteq> 0" by simp_all
  have "filter (\<lambda>g. fst g \<noteq> fst f) (frames s) = []"
    using assms r by (auto simp: filter_empty_conv list_all_iff)
  then show ?thesis using r
    by (simp add: stopAnimation_def cancelAnimationFrame_def Let_def split: option.splits)
qed

lemma stopAnimation_ref: "\<not> truthy (animationIdRef (stopAnimation s))"
  by (simp add: stopAnimation_def cancelAnimationFrame_def Let_def truthy_def split: option.splits)

lemma stopAnimation_canvas:
  "canvasRef s = Some c \<Longrightarrow> ctx2d c \<Longrightarrow> map_option rects (canvasRef (stopAnimation s)) = Some []"
  by (simp add: stopAnimation_def cancelAnimationFrame_def clearRect_def Let_def split: option.splits)

lemma stopAnimation_background:
  "backgroundRef s = Some b \<Longrightarrow> backgroundRef (stopAnimation s) = Some (0, 0)"
  by (simp add: stopAnimation_def cancelAnimationFrame_def Let_def split: option.splits)

lemma stopAnimation_idle:
  assumes "framesOk s" "canvasRef s = Some c" "ctx2d c" "backgroundRef s = Some b"
  shows "idle (stopAnimation s)"
  using assms stopAnimation_frames [of s] stopAnimation_ref [of s]
    stopAnimation_canvas [of s c] stopAnimation_background [of s b]
  by (simp add: idle_def framesOk_def)

lemma stopAnimation_idempotent: "stopAnimation (stopAnimation s) = stopAnimation s"
  by (simp add: stopAnimation_def cancelAnimationFrame_def clearRect_def Let_def split: option.splits)

lemma playTrackFromPlaylist_out_of_range:
  "\<not> (0 \<le> i \<and> i < int (length pl)) \<Longrightarrow> playTrackFromPlaylist pl i s = s"
  by (auto simp: playTrackFromPlaylist_def)

lemma playTrackFromPlaylist_in_range:
  assumes "audioRef s = Some a" "0 \<le> i" "i < int (length pl)"
  shows "currentTrackIndex (playTrackFromPlaylist pl i s) = i"
    and "startsLoading a (playTrackFromPlaylist pl i s) (pl ! nat i)"
    and "playlist (playTrackFromPlaylist pl i s) = playlist s"
  using assms
  by (simp_all add: playTrackFromPlaylist_def startsLoading_def Let_def stopAnimation_fields
      ensureAudioContextActive_fields revokeObjectURL_def load_def seekToStart_def pause_def)

lemma playedAt_simps:
  "audioRef (playedAt pl i lt lp) =
     Some \<lparr>src = url (pl ! nat i), paused = False, ended = True,
            currentTime = 180, hasSourceNode = True, autoplayAllowed = True,
            loadCalls = [url (pl ! nat i)], playCalls = 1, loadeddataListeners = 0\<rparr>"
  "playlist (playedAt pl i lt lp) = pl"
  "currentTrackIndex (playedAt pl i lt lp) = i"
  "loopTrack (playedAt pl i lt lp) = lt"
  "loopPlaylist (playedAt pl i lt lp) = lp"
  "frames (playedAt pl i lt lp) = []"
  "nextFrameId (playedAt pl i lt lp) = 1"
  "animationIdRef (playedAt pl i lt lp) = None"
  "canvasRef (playedAt pl i lt lp) = Some \<lparr>width = 800, height = 600, ctx2d = True, rects = []\<rparr>"
  "backgroundRef (playedAt pl i lt lp) = Some (0, 0)"
  "revoked (playedAt pl i lt lp) = []"
  by (simp_all add: playedAt_def mounted_def Let_def)

lemma deselected_eval:
  "playlist deselected = [trackB]"
  "currentTrackIndex deselected = - 1"
  "loopTrack deselected = False"
  "loopPlaylist deselected = False"
  "audioRef deselected = Some \<lparr>src = ''blob:a'', paused = False, ended = True, currentTime = 0,
                          hasSourceNode = True, autoplayAllowed = True, loadCalls = [''blob:a''],
                          playCalls = 1, loadeddataListeners = 0\<rparr>"
  "revoked deselected = [''blob:a'']"
  by (simp_all add: deselected_def trackB_def eval_defs settle_def handleLoadedData_def
      setupAudioSource_def createMediaElementSource_def connect_def)

lemma startsLoadingD:
  assumes "startsLoading a s' t"
  shows "map_option src (audioRef s') = Some (url t)"
    and "map_option loadCalls (audioRef s') = Some (loadCalls a @ [url t])"
  using assms by (auto simp: startsLoading_def split: option.splits)

lemma restartsD:
  assumes "restarts a s'"
  shows "map_option src (audioRef s') = Some (src a)"
    and "map_option currentTime (audioRef s') = Some 0"
    and "map_option playCalls (audioRef s') = Some (Suc (playCalls a))"
  using assms by (auto simp: restarts_def split: option.splits)

lemma tracks_nth:
  "[trackA, trackB, trackC] ! nat 0 = trackA"
  "[trackA, trackB, trackC] ! nat 1 = trackB"
  "[trackA, trackB, trackC] ! nat 2 = trackC"
  "url trackA = ''blob:a''"
  "url trackB = ''blob:b''"
  "url trackC = ''blob:c''"
  "track_id trackA = 1"
  "track_id trackB = 2"
  "track_id trackC = 3"
  by (simp_all add: trackA_def trackB_def trackC_def nat_numeral eval_nat_numeral)

lemmas run_defs =
  eval_defs settle_def handleLoadedData_def setupAudioSource_def createMediaElementSource_def
  connect_def handlePlay_def currentClosure_def fireTimer_def handlePlay_timeout_def truthy_def
  animate_def requestAnimationFrame_def getByteFrequencyData_def vibrationToggleBtn_onClick_def

lemma running_eval:
  "frames running = [(1, \<lparr>c_vw = 800, c_vh = 600, c_vibrationEnabled = True\<rparr>)]"
  "animationIdRef running = Some 1"
  "map_option paused (audioRef running) = Some False"
  "canvasRef running = Some \<lparr>width = 800, height = 600, ctx2d = True,
     rects = bars \<lparr>c_vw = 800, c_vh = 600, c_vibrationEnabled = True\<rparr> 128 fullScale\<rparr>"
  "backgroundRef running = Some (shake fullScale 128 (1 / 4) (3 / 4))"
  "timers running = [AutoPlay [] 0]"
  "dataArrayRef running = Some fullScale"
  "bufferLengthRef running = 128"
  "vibrationEnabled running"
  "nextFrameId running = 2"
  "audioContextRef running = Some Running"
  by (simp_all add: running_def fullScale_def run_defs)

lemma running_audio:
  "audioRef running = Some \<lparr>src = ''blob:a'', paused = False, ended = False, currentTime = 0,
      hasSourceNode = True, autoplayAllowed = True, loadCalls = [''blob:a''],
      playCalls = 1, loadeddataListeners = 0\<rparr>"
  "analyserRef running = Some \<lparr>fftSize = 256\<rparr>"
  by (simp_all add: running_def fullScale_def run_defs)

subsection \<open>Attaching the signal graph\<close>

lemma setupAudioSource_never_throws: "\<exists>s'. setupAudioSource s = Inr s'"
  by (simp add: setupAudioSource_def Let_def split: option.splits sum.splits)

lemma setupAudioSource_failed:
  assumes "audioRef s = Some a" "audioContextRef s = Some c" "analyserRef s = Some an"
    and "\<not> isSourceCreatedRef s" "src a \<noteq> []" "createMediaElementSource a = Inl e"
  shows "setupAudioSource s =
     Inr (s\<lparr>console := console s @ [''Error creating audio source:''],
            connections := connections s @ [(Analyser, Destination)]\<rparr>)"
  using assms by (simp add: setupAudioSource_def connect_def)

lemma setupAudioSource_succeeded:
  assumes "audioRef s = Some a" "audioContextRef s = Some c" "analyserRef s = Some an"
    and "\<not> isSourceCreatedRef s" "src a \<noteq> []" "createMediaElementSource a = Inr a'"
  shows "setupAudioSource s =
     Inr (s\<lparr>audioRef := Some a',
            connections := connections s @ [(MediaElementSource, Analyser), (Analyser, Destination)],
            sourceRef := Some MediaElementSource,
            isSourceCreatedRef := True,
            console := console s @ [''Audio source connected successfully'']\<rparr>)"
  using assms by (simp add: setupAudioSource_def connect_def Let_def)

lemma setupAudioSource_attached:
  "isSourceCreatedRef s \<Longrightarrow> setupAudioSource s = Inr s"
  by (simp add: setupAudioSource_def split: option.splits)

lemma setupAudioSource_times_attached:
  "isSourceCreatedRef s \<Longrightarrow> setupAudioSource_times n s = Inr s"
  by (induction n) (simp_all add: setupAudioSource_attached)

lemma instrumented_simps:
  "audioRef instrumented = Some \<lparr>src = ''blob:a'', paused = True, ended = False, currentTime = 0,
                          hasSourceNode = True, autoplayAllowed = True, loadCalls = [],
                          playCalls = 0, loadeddataListeners = 0\<rparr>"
  "audioContextRef instrumented = Some Suspended"
  "analyserRef instrumented = Some \<lparr>fftSize = 256\<rparr>"
  "isSourceCreatedRef instrumented = False"
  "connections instrumented = []"
  "console instrumented = []"
  by (simp_all add: instrumented_def mounted_def Let_def)

lemma loaded_simps:
  "audioRef loaded = Some \<lparr>src = ''blob:a'', paused = True, ended = False, currentTime = 0,
                          hasSourceNode = False, autoplayAllowed = True, loadCalls = [],
                          playCalls = 0, loadeddataListeners = 0\<rparr>"
  "audioContextRef loaded = Some Suspended"
  "analyserRef loaded = Some \<lparr>fftSize = 256\<rparr>"
  "isSourceCreatedRef loaded = False"
  "connections loaded = []"
  "console loaded = []"
  by (simp_all add: loaded_def mounted_def Let_def)

lemma instrumented_create_fails:
  "createMediaElementSource \<lparr>src = ''blob:a'', paused = True, ended = False, currentTime = 0,
                          hasSourceNode = True, autoplayAllowed = True, loadCalls = [],
                          playCalls = 0, loadeddataListeners = 0\<rparr> = Inl InvalidStateError"
  by (simp add: createMediaElementSource_def)

text \<open>
  C9. When \<^verbatim>\<open>createMediaElementSource\<close> throws during \<^verbatim>\<open>setupAudioSource\<close> (the refs
  are set, the graph is not yet attached, the element has a source), the call still
  returns normally, and what it has done is one call of \<^verbatim>\<open>analyser.connect(destination)\<close>:
  the analyser is connected straight to the output. The audio element is left as it
  was (its source, its paused flag and its position are untouched, so playback goes
  on), no source node is recorded, and the playlist and the selection are unchanged.
\<close>

theorem setupAudioSource_fallback:
  assumes "audioRef s = Some a" "audioContextRef s = Some c" "analyserRef s = Some an"
    and "\<not> isSourceCreatedRef s" "src a \<noteq> []"
    and "createMediaElementSource a = Inl e"
  shows "\<exists>s'. setupAudioSource s = Inr s'
            \<and> connections s' = connections s @ [(Analyser, Destination)]
            \<and> audioRef s' = audioRef s
            \<and> sourceRef s' = sourceRef s
            \<and> playlist s' = playlist s
            \<and> currentTrackIndex s' = currentTrackIndex s"
  by (simp add: setupAudioSource_failed [OF assms])

theorem setupAudioSource_fallback_witness:
  "createMediaElementSource \<lparr>src = ''blob:a'', paused = True, ended = False, currentTime = 0,
                          hasSourceNode = True, autoplayAllowed = True, loadCalls = [],
                          playCalls = 0, loadeddataListeners = 0\<rparr> = Inl InvalidStateError
   \<and> (\<exists>s'. setupAudioSource instrumented = Inr s'
            \<and> connections s' = [(Analyser, Destination)]
            \<and> audioRef s' = audioRef instrumented)"
proof -
  note f = instrumented_create_fails
  from setupAudioSource_fallback [OF instrumented_simps(1-3) _ _ f]
  show ?thesis using f by (auto simp: instrumented_simps)
qed

text \<open>
  C10. After an attempt of \<^verbatim>\<open>setupAudioSource\<close> in which \<^verbatim>\<open>createMediaElementSource\<close>
  threw, \<^verbatim>\<open>isSourceCreatedRef\<close> is still false, and every further call goes through the
  construction again instead of returning at once: after \<open>n\<close> calls in a row the flag
  is still false, the console holds \<open>n\<close> more reports of the failed construction, and
  \<^verbatim>\<open>analyser.connect(destination)\<close> has been called \<open>n\<close> more times.
\<close>

theorem setupAudioSource_retries:
  assumes "audioRef s = Some a" "audioContextRef s = Some c" "analyserRef s = Some an"
    and "\<not> isSourceCreatedRef s" "src a \<noteq> []"
    and "createMediaElementSource a = Inl e"
  shows "\<exists>s'. setupAudioSource_times n s = Inr s'
            \<and> \<not> isSourceCreatedRef s'
            \<and> console s' = console s @ replicate n ''Error creating audio source:''
            \<and> connections s' = connections s @ replicate n (Analyser, Destination)
            \<and> audioRef s' = audioRef s"
  using assms
proof (induction n arbitrary: s)
  case 0
  then show ?case by simp
next
  case (Suc n)
  let ?s1 = "s\<lparr>console := console s @ [''Error creating audio source:''],
            connections := connections s @ [(Analyser, Destination)]\<rparr>"
  have one: "setupAudioSource s = Inr ?s1"
    using Suc.prems by (rule setupAudioSource_failed)
  have "\<exists>s'. setupAudioSource_times n ?s1 = Inr s'
            \<and> \<not> isSourceCreatedRef s'
            \<and> console s' = console ?s1 @ replicate n ''Error creating audio source:''
            \<and> connections s' = connections ?s1 @ replicate n (Analyser, Destination)
            \<and> audioRef s' = audioRef ?s1"
    using Suc.prems by (intro Suc.IH) simp_all
  then show ?case
    using one by (auto simp: replicate_append_same simp flip: replicate_append_same)
qed

theorem setupAudioSource_retries_witness:
  "createMediaElementSource \<lparr>src = ''blob:a'', paused = True, ended = False, currentTime = 0,
                          hasSourceNode = True, autoplayAllowed = True, loadCalls = [],
                          playCalls = 0, loadeddataListeners = 0\<rparr> = Inl InvalidStateError
   \<and> (\<exists>s'. setupAudioSource_times 3 instrumented = Inr s'
            \<and> \<not> isSourceCreatedRef s'
            \<and> console s' = [''Error creating audio source:'', ''Error creating audio source:'',
                              ''Error creating audio source:''])"
proof -
  note f = instrumented_create_fails
  from setupAudioSource_retries [OF instrumented_simps(1-3) _ _ f, of 3]
  show ?thesis using f by (auto simp: instrumented_simps eval_nat_numeral)
qed

text \<open>
  C3, as the claim states it, fails for an element with a source that is already bound
  to a source node: there the first call of \<^verbatim>\<open>setupAudioSource\<close> builds no chain (it
  logs the failure and connects the analyser to the output), and the second call is no
  no-op: it does the same again.
\<close>

theorem setupAudioSource_twice_counterexample:
  "setupAudioSource_times (Suc 0) instrumented =
     Inr (instrumented\<lparr>console := [''Error creating audio source:''],
                       connections := [(Analyser, Destination)]\<rparr>)
   \<and> setupAudioSource_times (Suc (Suc 0)) instrumented =
     Inr (instrumented\<lparr>console := [''Error creating audio source:'', ''Error creating audio source:''],
                       connections := [(Analyser, Destination), (Analyser, Destination)]\<rparr>)
   \<and> setupAudioSource_times (Suc (Suc 0)) instrumented \<noteq> setupAudioSource_times (Suc 0) instrumented"
proof -
  note f = instrumented_create_fails
  let ?s1 = "instrumented\<lparr>console := [''Error creating audio source:''],
                       connections := [(Analyser, Destination)]\<rparr>"
  let ?s2 = "instrumented\<lparr>console := [''Error creating audio source:'', ''Error creating audio source:''],
                       connections := [(Analyser, Destination), (Analyser, Destination)]\<rparr>"
  have one: "setupAudioSource instrumented = Inr ?s1"
    using setupAudioSource_failed [OF instrumented_simps(1-3) _ _ f]
    by (simp add: instrumented_simps)
  have two: "setupAudioSource ?s1 = Inr ?s2"
    using setupAudioSource_failed [of ?s1, OF _ _ _ _ _ f]
    by (simp add: instrumented_simps)
  have "console ?s2 \<noteq> console ?s1" by simp
  then have "?s2 \<noteq> ?s1" by metis
  then show ?thesis using one two by simp
qed

text \<open>
  C3, amended. For an audio element with a non-empty source on which
  \<^verbatim>\<open>createMediaElementSource\<close> succeeds (no source node is bound to it yet), in a
  component whose graph is not yet attached: the first call of \<^verbatim>\<open>setupAudioSource\<close>
  returns normally, has connected source to analyser and analyser to output (these two
  calls of \<^verbatim>\<open>connect\<close> and no other) and has set \<^verbatim>\<open>isSourceCreatedRef\<close>; a second call
  returns normally and changes nothing, and so does every later one: any number of calls
  gives the state of the first.
\<close>

theorem setupAudioSource_idempotent:
  assumes "audioRef s = Some a" "audioContextRef s = Some c" "analyserRef s = Some an"
    and "src a \<noteq> []" "\<not> isSourceCreatedRef s"
    and "createMediaElementSource a = Inr a'"
  shows "\<exists>s1. setupAudioSource s = Inr s1
            \<and> setupAudioSource s1 = Inr s1
            \<and> (\<forall>n. setupAudioSource_times (Suc n) s = Inr s1)
            \<and> isSourceCreatedRef s1
            \<and> connections s1 =
                connections s @ [(MediaElementSource, Analyser), (Analyser, Destination)]"
proof -
  let ?s1 = "s\<lparr>audioRef := Some a',
            connections := connections s @ [(MediaElementSource, Analyser), (Analyser, Destination)],
            sourceRef := Some MediaElementSource,
            isSourceCreatedRef := True,
            console := console s @ [''Audio source connected successfully'']\<rparr>"
  have one: "setupAudioSource s = Inr ?s1"
    using assms(1,2,3,5,4,6) by (rule setupAudioSource_succeeded)
  have att: "isSourceCreatedRef ?s1" by simp
  have "setupAudioSource ?s1 = Inr ?s1"
    using att by (rule setupAudioSource_attached)
  moreover have "setupAudioSource_times (Suc n) s = Inr ?s1" for n
    using one setupAudioSource_times_attached [OF att, of n] by simp
  ultimately show ?thesis using one by simp
qed

theorem setupAudioSource_idempotent_witness:
  "createMediaElementSource \<lparr>src = ''blob:a'', paused = True, ended = False, currentTime = 0,
                          hasSourceNode = False, autoplayAllowed = True, loadCalls = [],
                          playCalls = 0, loadeddataListeners = 0\<rparr>
     = Inr \<lparr>src = ''blob:a'', paused = True, ended = False, currentTime = 0,
                          hasSourceNode = True, autoplayAllowed = True, loadCalls = [],
                          playCalls = 0, loadeddataListeners = 0\<rparr>
   \<and> (\<exists>s1. setupAudioSource loaded = Inr s1
            \<and> setupAudioSource s1 = Inr s1
            \<and> setupAudioSource_times (Suc (Suc 0)) loaded = Inr s1
            \<and> connections s1 = [(MediaElementSource, Analyser), (Analyser, Destination)])"
proof -
  have f: "createMediaElementSource \<lparr>src = ''blob:a'', paused = True, ended = False, currentTime = 0,
                          hasSourceNode = False, autoplayAllowed = True, loadCalls = [],
                          playCalls = 0, loadeddataListeners = 0\<rparr>
     = Inr \<lparr>src = ''blob:a'', paused = True, ended = False, currentTime = 0,
                          hasSourceNode = True, autoplayAllowed = True, loadCalls = [],
                          playCalls = 0, loadeddataListeners = 0\<rparr>"
    by (simp add: createMediaElementSource_def)
  from setupAudioSource_idempotent [OF loaded_simps(1-3) _ _ f]
  show ?thesis using f by (auto simp: loaded_simps)
qed
subsection \<open>The loop flags\<close>

lemma stopAnimation_loopFlags: "loopFlags (stopAnimation s) = loopFlags s"
  by (simp add: loopFlags_def stopAnimation_fields)

lemma play_loopFlags: "loopFlags (play s) = loopFlags s"
  by (simp add: loopFlags_def play_fields)

lemma ensureAudioContextActive_loopFlags: "loopFlags (ensureAudioContextActive s) = loopFlags s"
  by (simp add: loopFlags_def ensureAudioContextActive_fields)

lemma setupAudioSource_loopFlags: "setupAudioSource s = Inr s' \<Longrightarrow> loopFlags s' = loopFlags s"
  by (simp add: loopFlags_def setupAudioSource_fields)

lemma playTrackFromPlaylist_loopFlags: "loopFlags (playTrackFromPlaylist pl i s) = loopFlags s"
  by (simp add: loopFlags_def playTrackFromPlaylist_def revokeObjectURL_def Let_def
      stopAnimation_fields ensureAudioContextActive_fields split: option.splits)

lemma animate_loopFlags: "loopFlags (animate cl sp r1 r2 s) = loopFlags s"
  using stopAnimation_loopFlags [of s]
  by (simp add: loopFlags_def animate_def requestAnimationFrame_def Let_def split: option.splits)

lemma handleEnded_loopFlags: "loopFlags (handleEnded s) = loopFlags s"
  using stopAnimation_loopFlags [of s] play_loopFlags playTrackFromPlaylist_loopFlags
  by (simp add: handleEnded_def Let_def) (simp add: loopFlags_def)

lemma handlePlay_loopFlags: "loopFlags (settle s (handlePlay s)) = loopFlags s"
proof (cases "setupAudioSource (ensureAudioContextActive s)")
  case (Inl e)
  then show ?thesis by (simp add: settle_def handlePlay_def)
next
  case (Inr s1)
  from setupAudioSource_loopFlags [OF this] have "loopFlags s1 = loopFlags s"
    by (simp add: ensureAudioContextActive_loopFlags)
  then show ?thesis using Inr by (simp add: settle_def handlePlay_def loopFlags_def)
qed

lemma handleLoadedData_loopFlags: "loopFlags (settle s (handleLoadedData s)) = loopFlags s"
proof (cases "setupAudioSource s")
  case (Inl e)
  then show ?thesis by (simp add: settle_def handleLoadedData_def)
next
  case (Inr s1)
  from setupAudioSource_loopFlags [OF this] show ?thesis
    using Inr by (simp add: settle_def handleLoadedData_def play_loopFlags)
qed

lemma fireLoadedData_loopFlags: "loopFlags (fireLoadedData n s) = loopFlags s"
  by (induction n arbitrary: s) (simp_all add: handleLoadedData_loopFlags)

lemma fireTimer_loopFlags: "loopFlags (fireTimer t sp r1 r2 s) = loopFlags s"
  by (cases t) (simp_all add: fireTimer_def handlePlay_timeout_def animate_loopFlags
      playTrackFromPlaylist_loopFlags)

lemma removeFromPlaylist_loopFlags: "loopFlags (removeFromPlaylist i s) = loopFlags s"
  by (simp add: loopFlags_def removeFromPlaylist_def revokeObjectURL_def Let_def
      stopAnimation_fields)

lemma exclusive_loopFlags: "loopFlags s' = loopFlags s \<Longrightarrow> exclusive s' = exclusive s"
  by (simp add: exclusive_def loopFlags_def)

lemma exclusive_updates:
  "exclusive (s\<lparr>audioRef := a\<rparr>) = exclusive s"
  "exclusive (s\<lparr>timers := ts\<rparr>) = exclusive s"
  "exclusive (s\<lparr>frames := fs\<rparr>) = exclusive s"
  by (simp_all add: exclusive_def)

lemma step_exclusive: "exclusive s \<Longrightarrow> exclusive (step e s)"
proof (cases e)
  case ClickLoopTrack
  then show ?thesis by (simp add: exclusive_def loopTrackBtn_onClick_def Let_def)
next
  case ClickLoopPlaylist
  then show ?thesis by (simp add: exclusive_def loopPlaylistBtn_onClick_def Let_def)
next
  case Play
  assume "exclusive s"
  then show ?thesis using Play
    by (simp add: exclusive_loopFlags [OF handlePlay_loopFlags] split: option.splits)
next
  case Pause
  assume "exclusive s"
  then show ?thesis using Pause
    by (simp add: handlePause_def exclusive_loopFlags [OF stopAnimation_loopFlags]
        split: option.splits)
next
  case Ended
  assume "exclusive s"
  then show ?thesis using Ended
    by (simp add: exclusive_loopFlags [OF handleEnded_loopFlags] split: option.splits)
next
  case LoadedData
  assume "exclusive s"
  then show ?thesis using LoadedData
    by (simp add: exclusive_loopFlags [OF fireLoadedData_loopFlags] exclusive_updates
        split: option.splits)
next
  case (ElementStatus p q)
  assume "exclusive s"
  then show ?thesis using ElementStatus by (simp add: exclusive_def)
next
  case (Timeout k sp r1 r2)
  assume "exclusive s"
  then show ?thesis using Timeout
    by (simp add: exclusive_loopFlags [OF fireTimer_loopFlags] exclusive_updates)
next
  case (AnimationFrame sp r1 r2)
  assume "exclusive s"
  then show ?thesis using AnimationFrame
    by (simp add: exclusive_loopFlags [OF animate_loopFlags] exclusive_updates
        split: list.splits)
next
  case (ClickTrack i)
  assume "exclusive s"
  then show ?thesis using ClickTrack
    by (simp add: exclusive_loopFlags [OF playTrackFromPlaylist_loopFlags])
next
  case (ClickRemove i)
  assume "exclusive s"
  then show ?thesis using ClickRemove
    by (simp add: exclusive_loopFlags [OF removeFromPlaylist_loopFlags])
next
  case ClickVibration
  assume "exclusive s"
  then show ?thesis using ClickVibration
    by (simp add: exclusive_def vibrationToggleBtn_onClick_def)
next
  case ClickPlaylistToggle
  assume "exclusive s"
  then show ?thesis using ClickPlaylistToggle
    by (simp add: exclusive_def playlistToggle_onClick_def)
next
  case (Upload i n u)
  assume "exclusive s"
  then show ?thesis using Upload
    by (simp add: exclusive_def addToPlaylist_def Let_def)
next
  case (LoadedMetadata i d)
  assume "exclusive s"
  then show ?thesis using LoadedMetadata
    by (simp add: exclusive_def handleLoadedMetadata_def)
next
  case (Resize w h)
  assume "exclusive s"
  then show ?thesis using Resize
    by (simp add: exclusive_def handleResize_def)
qed

lemma run_exclusive: "exclusive s \<Longrightarrow> exclusive (run es s)"
  by (induction es arbitrary: s) (simp_all add: step_exclusive)

text \<open>
  C4. The click on the loop-track button, when loop-track is off, turns it on and turns
  loop-playlist off; the click on the loop-playlist button, when loop-playlist is off,
  turns it on and turns loop-track off. From a state in which both flags are off (the
  state after mounting is one), after any sequence of events of the component, the
  two clicks among them, the two flags are never both on.
\<close>

theorem loop_flags_exclusive:
  "(\<not> loopTrack s \<longrightarrow>
       loopTrack (loopTrackBtn_onClick s) \<and> \<not> loopPlaylist (loopTrackBtn_onClick s))
   \<and> (\<not> loopPlaylist s \<longrightarrow>
       loopPlaylist (loopPlaylistBtn_onClick s) \<and> \<not> loopTrack (loopPlaylistBtn_onClick s))
   \<and> (\<not> loopTrack s \<and> \<not> loopPlaylist s \<longrightarrow>
       \<not> (loopTrack (run es s) \<and> loopPlaylist (run es s)))"
proof -
  have "exclusive (run es s)" if "\<not> loopTrack s" "\<not> loopPlaylist s"
    using that by (intro run_exclusive) (simp add: exclusive_def)
  then show ?thesis
    by (simp add: exclusive_def loopTrackBtn_onClick_def loopPlaylistBtn_onClick_def Let_def)
qed

theorem loop_flags_exclusive_witness:
  "\<not> loopTrack (mounted 800 600 True) \<and> \<not> loopPlaylist (mounted 800 600 True)
   \<and> loopTrack (loopTrackBtn_onClick (mounted 800 600 True))
   \<and> \<not> loopPlaylist (loopTrackBtn_onClick (mounted 800 600 True))
   \<and> loopPlaylist (loopPlaylistBtn_onClick (mounted 800 600 True))
   \<and> \<not> loopTrack (loopPlaylistBtn_onClick (mounted 800 600 True))
   \<and> loopPlaylist (run [ClickLoopTrack, ClickLoopPlaylist] (mounted 800 600 True))
   \<and> \<not> loopTrack (run [ClickLoopTrack, ClickLoopPlaylist] (mounted 800 600 True))"
  using loop_flags_exclusive [of "mounted 800 600 True" "[ClickLoopTrack, ClickLoopPlaylist]"]
  by (simp add: mounted_def loopTrackBtn_onClick_def loopPlaylistBtn_onClick_def Let_def)

subsection \<open>Selecting a track\<close>

text \<open>
  C7. For a playlist \<open>P\<close> (the playlist of the state) and an index \<open>i\<close> with
  \<open>0 \<le> i < length P\<close>, \<^verbatim>\<open>playTrackFromPlaylist(i)\<close> on a mounted audio element leaves
  \<^verbatim>\<open>currentTrackIndex\<close> equal to \<open>i\<close>, gives the element the resource of \<open>P[i]\<close> as
  its source and calls \<^verbatim>\<open>load()\<close> on it once, and leaves the playlist as it is. For
  every other index the call returns the state unchanged. The function has no failing
  branch: it returns a state for every argument.
\<close>

theorem playTrackFromPlaylist_selects:
  "(audioRef s = Some a \<and> 0 \<le> i \<and> i < int (length (playlist s)) \<longrightarrow>
      currentTrackIndex (playTrackFromPlaylist (playlist s) i s) = i
      \<and> startsLoading a (playTrackFromPlaylist (playlist s) i s) (playlist s ! nat i)
      \<and> playlist (playTrackFromPlaylist (playlist s) i s) = playlist s)
   \<and> (\<not> (0 \<le> i \<and> i < int (length (playlist s))) \<longrightarrow>
      playTrackFromPlaylist (playlist s) i s = s)"
  using playTrackFromPlaylist_in_range [of s a i "playlist s"]
    playTrackFromPlaylist_out_of_range [of i "playlist s" s]
  by blast

theorem playTrackFromPlaylist_selects_witness:
  "currentTrackIndex
     (playTrackFromPlaylist [trackA, trackB, trackC] 2 (playedAt [trackA, trackB, trackC] 0 False False)) = 2
   \<and> map_option src (audioRef
       (playTrackFromPlaylist [trackA, trackB, trackC] 2 (playedAt [trackA, trackB, trackC] 0 False False)))
       = Some ''blob:c''
   \<and> map_option loadCalls (audioRef
       (playTrackFromPlaylist [trackA, trackB, trackC] 2 (playedAt [trackA, trackB, trackC] 0 False False)))
       = Some [''blob:a'', ''blob:c'']
   \<and> playTrackFromPlaylist [trackA, trackB, trackC] 3 (playedAt [trackA, trackB, trackC] 0 False False)
       = playedAt [trackA, trackB, trackC] 0 False False
   \<and> playTrackFromPlaylist [trackA, trackB, trackC] (- 1) (playedAt [trackA, trackB, trackC] 0 False False)
       = playedAt [trackA, trackB, trackC] 0 False False"
proof -
  let ?P = "[trackA, trackB, trackC]"
  let ?s = "playedAt ?P 0 False False"
  let ?a = "\<lparr>src = url (?P ! nat 0), paused = False, ended = True,
            currentTime = 180, hasSourceNode = True, autoplayAllowed = True,
            loadCalls = [url (?P ! nat 0)], playCalls = 1, loadeddataListeners = 0\<rparr>"
  have p: "playlist ?s = ?P" and a: "audioRef ?s = Some ?a"
    by (simp_all add: playedAt_simps)
  note t = playTrackFromPlaylist_selects [of ?s ?a, unfolded p]
  have 1: "currentTrackIndex (playTrackFromPlaylist ?P 2 ?s) = 2"
    and 2: "startsLoading ?a (playTrackFromPlaylist ?P 2 ?s) (?P ! nat 2)"
    using t [of 2] a by simp_all
  have 3: "playTrackFromPlaylist ?P 3 ?s = ?s" using t [of 3] by simp
  have 4: "playTrackFromPlaylist ?P (- 1) ?s = ?s" using t [of "- 1"] by simp
  show ?thesis
    using 1 startsLoadingD [OF 2] 3 4 by (simp add: tracks_nth)
qed

subsection \<open>The end of a track\<close>

lemma play_after_seek:
  assumes "audioRef s = Some a"
  shows "restarts a (play (s\<lparr>audioRef := map_option seekToStart (audioRef s)\<rparr>))"
    and "currentTrackIndex (play (s\<lparr>audioRef := map_option seekToStart (audioRef s)\<rparr>))
           = currentTrackIndex s"
  using assms by (simp_all add: restarts_def play_def seekToStart_def)

lemma handleEnded_loopTrack:
  assumes "audioRef s = Some a" "loopTrack s" "currentTrackIndex s \<ge> 0"
  shows "currentTrackIndex (handleEnded s) = currentTrackIndex s"
    and "restarts a (handleEnded s)"
proof -
  have a: "audioRef (stopAnimation s) = Some a"
    using assms(1) by (simp add: stopAnimation_fields)
  show "currentTrackIndex (handleEnded s) = currentTrackIndex s"
    using assms(2,3) play_after_seek(2) [OF a]
    by (simp add: handleEnded_def Let_def stopAnimation_fields)
  show "restarts a (handleEnded s)"
    using assms(2,3) play_after_seek(1) [OF a]
    by (simp add: handleEnded_def Let_def stopAnimation_fields)
qed

lemma handleEnded_loopPlaylist:
  assumes "audioRef s = Some a" "\<not> (loopTrack s \<and> currentTrackIndex s \<ge> 0)"
    and "loopPlaylist s" "playlist s \<noteq> []"
    and "j = (if 0 \<le> currentTrackIndex s \<and> currentTrackIndex s < int (length (playlist s)) - 1
              then currentTrackIndex s + 1 else 0)"
  shows "currentTrackIndex (handleEnded s) = j"
    and "startsLoading a (handleEnded s) (playlist s ! nat j)"
proof -
  have a: "audioRef (stopAnimation s) = Some a"
    using assms(1) by (simp add: stopAnimation_fields)
  have r: "0 \<le> j" "j < int (length (playlist s))"
    using assms(4,5) by (auto split: if_splits)
  have e: "handleEnded s = playTrackFromPlaylist (playlist s) j (stopAnimation s)"
    using assms(2-5) by (auto simp: handleEnded_def Let_def stopAnimation_fields)
  show "currentTrackIndex (handleEnded s) = j"
    unfolding e using a r by (rule playTrackFromPlaylist_in_range(1))
  show "startsLoading a (handleEnded s) (playlist s ! nat j)"
    unfolding e using a r by (rule playTrackFromPlaylist_in_range(2))
qed

lemma handleEnded_next:
  assumes "audioRef s = Some a" "\<not> (loopTrack s \<and> currentTrackIndex s \<ge> 0)"
    and "\<not> (loopPlaylist s \<and> playlist s \<noteq> [])"
    and "0 \<le> currentTrackIndex s" "currentTrackIndex s < int (length (playlist s)) - 1"
  shows "currentTrackIndex (handleEnded s) = currentTrackIndex s + 1"
    and "startsLoading a (handleEnded s) (playlist s ! nat (currentTrackIndex s + 1))"
proof -
  have a: "audioRef (stopAnimation s) = Some a"
    using assms(1) by (simp add: stopAnimation_fields)
  have r: "0 \<le> currentTrackIndex s + 1" "currentTrackIndex s + 1 < int (length (playlist s))"
    using assms(4,5) by simp_all
  have e: "handleEnded s = playTrackFromPlaylist (playlist s) (currentTrackIndex s + 1) (stopAnimation s)"
    using assms(2-5) by (auto simp: handleEnded_def Let_def stopAnimation_fields)
  show "currentTrackIndex (handleEnded s) = currentTrackIndex s + 1"
    unfolding e using a r by (rule playTrackFromPlaylist_in_range(1))
  show "startsLoading a (handleEnded s) (playlist s ! nat (currentTrackIndex s + 1))"
    unfolding e using a r by (rule playTrackFromPlaylist_in_range(2))
qed

lemma handleEnded_clear:
  assumes "\<not> (loopTrack s \<and> currentTrackIndex s \<ge> 0)"
    and "\<not> (loopPlaylist s \<and> playlist s \<noteq> [])"
    and "\<not> (0 \<le> currentTrackIndex s \<and> currentTrackIndex s < int (length (playlist s)) - 1)"
  shows "currentTrackIndex (handleEnded s) = - 1"
    and "audioRef (handleEnded s) = audioRef s"
    and "playlist (handleEnded s) = playlist s"
  using assms by (auto simp: handleEnded_def Let_def stopAnimation_fields)

text \<open>
  C1, as the claim states it, fails when nothing is selected: in \<open>deselected\<close> both loop
  flags are off, the playlist has one track, and the current index \<open>-1\<close> is not the
  last index \<open>0\<close>; the third rule of the claim asks for the next track (index \<open>0\<close>) to
  be played, but on the event \<^verbatim>\<open>ended\<close> the handler keeps the selection at \<open>-1\<close> and
  leaves the audio element as it is.
\<close>

theorem handleEnded_counterexample:
  "\<not> loopTrack deselected \<and> \<not> loopPlaylist deselected
   \<and> playlist deselected = [trackB] \<and> currentTrackIndex deselected = - 1
   \<and> currentTrackIndex deselected \<noteq> int (length (playlist deselected)) - 1
   \<and> currentTrackIndex (step Ended deselected) = - 1
   \<and> audioRef (step Ended deselected) = audioRef deselected"
  using handleEnded_clear [of deselected] by (simp add: deselected_eval)

text \<open>
  C1, amended. For every playlist, current index and pair of loop flags, \<^verbatim>\<open>handleEnded\<close>
  on a mounted audio element follows this precedence:
  (1) if loop-track is on and a track is selected (the index is at least 0), the index
  stays, the element keeps its source, its position is set to 0 and \<^verbatim>\<open>play()\<close> is called;
  (2) else if loop-playlist is on and the playlist is not empty, the index becomes the
  next index when a track is selected and it is not the last, and 0 otherwise, and that
  track starts loading; for an index that is \<open>-1\<close> or valid this is the next index
  modulo the length of the playlist;
  (3) else if a track is selected and it is not the last, the index becomes the next
  index and that track starts loading;
  (4) else the index becomes \<open>-1\<close> and the audio element is left as it is.
\<close>

theorem handleEnded_policy:
  assumes "audioRef s = Some a"
  shows "(loopTrack s \<and> currentTrackIndex s \<ge> 0 \<longrightarrow>
            currentTrackIndex (handleEnded s) = currentTrackIndex s \<and> restarts a (handleEnded s))
       \<and> (\<not> (loopTrack s \<and> currentTrackIndex s \<ge> 0) \<and> loopPlaylist s \<and> playlist s \<noteq> [] \<longrightarrow>
            (let j = (if 0 \<le> currentTrackIndex s \<and> currentTrackIndex s < int (length (playlist s)) - 1
                      then currentTrackIndex s + 1 else 0)
             in currentTrackIndex (handleEnded s) = j
                \<and> startsLoading a (handleEnded s) (playlist s ! nat j)
                \<and> (- 1 \<le> currentTrackIndex s \<and> currentTrackIndex s < int (length (playlist s)) \<longrightarrow>
                      j = (currentTrackIndex s + 1) mod int (length (playlist s)))))
       \<and> (\<not> (loopTrack s \<and> currentTrackIndex s \<ge> 0) \<and> \<not> (loopPlaylist s \<and> playlist s \<noteq> [])
            \<and> 0 \<le> currentTrackIndex s \<and> currentTrackIndex s < int (length (playlist s)) - 1 \<longrightarrow>
            currentTrackIndex (handleEnded s) = currentTrackIndex s + 1
            \<and> startsLoading a (handleEnded s) (playlist s ! nat (currentTrackIndex s + 1)))
       \<and> (\<not> (loopTrack s \<and> currentTrackIndex s \<ge> 0) \<and> \<not> (loopPlaylist s \<and> playlist s \<noteq> [])
            \<and> \<not> (0 \<le> currentTrackIndex s \<and> currentTrackIndex s < int (length (playlist s)) - 1) \<longrightarrow>
            currentTrackIndex (handleEnded s) = - 1 \<and> audioRef (handleEnded s) = audioRef s)"
proof (intro conjI impI)
  assume "loopTrack s \<and> currentTrackIndex s \<ge> 0"
  then show "currentTrackIndex (handleEnded s) = currentTrackIndex s" "restarts a (handleEnded s)"
    using handleEnded_loopTrack [OF assms] by simp_all
next
  assume h: "\<not> (loopTrack s \<and> currentTrackIndex s \<ge> 0) \<and> loopPlaylist s \<and> playlist s \<noteq> []"
  define j where "j = (if 0 \<le> currentTrackIndex s \<and> currentTrackIndex s < int (length (playlist s)) - 1
                      then currentTrackIndex s + 1 else 0)"
  have 1: "currentTrackIndex (handleEnded s) = j" "startsLoading a (handleEnded s) (playlist s ! nat j)"
    using handleEnded_loopPlaylist [OF assms _ _ _ j_def] h by simp_all
  have 2: "j = (currentTrackIndex s + 1) mod int (length (playlist s))"
    if "- 1 \<le> currentTrackIndex s \<and> currentTrackIndex s < int (length (playlist s))"
  proof (cases "currentTrackIndex s < int (length (playlist s)) - 1")
    case True
    then show ?thesis using that by (cases "currentTrackIndex s = - 1") (simp_all add: j_def)
  next
    case False
    then have "currentTrackIndex s + 1 = int (length (playlist s))" using that by simp
    then show ?thesis using False by (simp add: j_def)
  qed
  show "let j = (if 0 \<le> currentTrackIndex s \<and> currentTrackIndex s < int (length (playlist s)) - 1
                      then currentTrackIndex s + 1 else 0)
             in currentTrackIndex (handleEnded s) = j
                \<and> startsLoading a (handleEnded s) (playlist s ! nat j)
                \<and> (- 1 \<le> currentTrackIndex s \<and> currentTrackIndex s < int (length (playlist s)) \<longrightarrow>
                      j = (currentTrackIndex s + 1) mod int (length (playlist s)))"
    using 1 2 unfolding Let_def j_def [symmetric] by blast
next
  assume h: "\<not> (loopTrack s \<and> currentTrackIndex s \<ge> 0) \<and> \<not> (loopPlaylist s \<and> playlist s \<noteq> [])
            \<and> 0 \<le> currentTrackIndex s \<and> currentTrackIndex s < int (length (playlist s)) - 1"
  then show "currentTrackIndex (handleEnded s) = currentTrackIndex s + 1"
    "startsLoading a (handleEnded s) (playlist s ! nat (currentTrackIndex s + 1))"
    using handleEnded_next [OF assms] by blast+
next
  assume h: "\<not> (loopTrack s \<and> currentTrackIndex s \<ge> 0) \<and> \<not> (loopPlaylist s \<and> playlist s \<noteq> [])
            \<and> \<not> (0 \<le> currentTrackIndex s \<and> currentTrackIndex s < int (length (playlist s)) - 1)"
  then show "currentTrackIndex (handleEnded s) = - 1" "audioRef (handleEnded s) = audioRef s"
    using handleEnded_clear [of s] by blast+
qed


theorem handleEnded_policy_witness:
  "currentTrackIndex (handleEnded (playedAt [trackA, trackB, trackC] 1 True False)) = 1
   \<and> map_option currentTime (audioRef (handleEnded (playedAt [trackA, trackB, trackC] 1 True False)))
        = Some 0
   \<and> map_option src (audioRef (handleEnded (playedAt [trackA, trackB, trackC] 1 True False)))
        = Some ''blob:b''
   \<and> currentTrackIndex (handleEnded (playedAt [trackA, trackB, trackC] 2 False True)) = 0
   \<and> map_option src (audioRef (handleEnded (playedAt [trackA, trackB, trackC] 2 False True)))
        = Some ''blob:a''
   \<and> currentTrackIndex (handleEnded (playedAt [trackA, trackB, trackC] 0 False False)) = 1
   \<and> map_option src (audioRef (handleEnded (playedAt [trackA, trackB, trackC] 0 False False)))
        = Some ''blob:b''
   \<and> currentTrackIndex (handleEnded (playedAt [trackA, trackB, trackC] 2 False False)) = - 1
   \<and> audioRef (handleEnded (playedAt [trackA, trackB, trackC] 2 False False))
        = audioRef (playedAt [trackA, trackB, trackC] 2 False False)"
proof -
  let ?P = "[trackA, trackB, trackC]"
  have 1: "currentTrackIndex (handleEnded (playedAt ?P 1 True False)) = 1"
    "restarts \<lparr>src = url (?P ! nat 1), paused = False, ended = True,
            currentTime = 180, hasSourceNode = True, autoplayAllowed = True,
            loadCalls = [url (?P ! nat 1)], playCalls = 1, loadeddataListeners = 0\<rparr>
       (handleEnded (playedAt ?P 1 True False))"
    using handleEnded_policy [OF playedAt_simps(1), of ?P 1 True False]
    by (simp_all add: playedAt_simps)
  have 2: "currentTrackIndex (handleEnded (playedAt ?P 2 False True)) = 0"
    "startsLoading \<lparr>src = url (?P ! nat 2), paused = False, ended = True,
            currentTime = 180, hasSourceNode = True, autoplayAllowed = True,
            loadCalls = [url (?P ! nat 2)], playCalls = 1, loadeddataListeners = 0\<rparr>
       (handleEnded (playedAt ?P 2 False True)) (?P ! nat 0)"
    using handleEnded_policy [OF playedAt_simps(1), of ?P 2 False True]
    by (simp_all add: playedAt_simps)
  have 3: "currentTrackIndex (handleEnded (playedAt ?P 0 False False)) = 1"
    "startsLoading \<lparr>src = url (?P ! nat 0), paused = False, ended = True,
            currentTime = 180, hasSourceNode = True, autoplayAllowed = True,
            loadCalls = [url (?P ! nat 0)], playCalls = 1, loadeddataListeners = 0\<rparr>
       (handleEnded (playedAt ?P 0 False False)) (?P ! nat 1)"
    using handleEnded_policy [OF playedAt_simps(1), of ?P 0 False False]
    by (simp_all add: playedAt_simps)
  have 4: "currentTrackIndex (handleEnded (playedAt ?P 2 False False)) = - 1"
    "audioRef (handleEnded (playedAt ?P 2 False False)) = audioRef (playedAt ?P 2 False False)"
    using handleEnded_policy [OF playedAt_simps(1), of ?P 2 False False]
    by (simp_all add: playedAt_simps)
  show ?thesis
    using 1(1) restartsD(1,2) [OF 1(2)] 2(1) startsLoadingD(1) [OF 2(2)]
      3(1) startsLoadingD(1) [OF 3(2)] 4
    by (simp add: tracks_nth)
qed

subsection \<open>Removing a track\<close>

lemma findIndex_from_distinct:
  assumes "distinct (map f xs)" "i < length xs"
  shows "findIndex_from (\<lambda>t. f t = f (xs ! i)) xs k = k + int i"
  using assms
proof (induction xs arbitrary: i k)
  case Nil
  then show ?case by simp
next
  case (Cons x xs)
  show ?case
  proof (cases i)
    case 0
    then show ?thesis by simp
  next
    case (Suc j)
    with Cons.prems have j: "j < length xs" and d: "distinct (map f xs)" and n: "f x \<noteq> f (xs ! j)"
      by auto
    from Cons.IH [OF d j, of "k + 1"] show ?thesis using Suc n by simp
  qed
qed

lemma findIndex_from_missing:
  "0 \<le> k \<Longrightarrow> (findIndex_from P xs k = - 1) = (\<forall>x \<in> set xs. \<not> P x)"
  and findIndex_from_lower: "0 \<le> k \<Longrightarrow> findIndex_from P xs k \<noteq> - 1 \<Longrightarrow> k \<le> findIndex_from P xs k"
proof (induction xs arbitrary: k)
  case Nil
  { case 1 then show ?case by simp }
  { case 2 then show ?case by simp }
next
  case (Cons x xs)
  { case 1
    have "findIndex_from P xs (k + 1) \<noteq> - 1 \<Longrightarrow> k + 1 \<le> findIndex_from P xs (k + 1)"
      using Cons.IH(2) [of "k + 1"] 1 by simp
    then show ?case using Cons.IH(1) [of "k + 1"] 1 by auto }
  { case 2 then show ?case using Cons.IH(2) [of "k + 1"] by (auto split: if_splits) }
qed

lemma findIndex_from_found:
  "0 \<le> k \<Longrightarrow> findIndex_from P xs k \<noteq> - 1 \<Longrightarrow>
     nat (findIndex_from P xs k - k) < length xs \<and> P (xs ! nat (findIndex_from P xs k - k))"
proof (induction xs arbitrary: k)
  case Nil
  then show ?case by simp
next
  case (Cons x xs)
  show ?case
  proof (cases "P x")
    case True
    then show ?thesis by simp
  next
    case False
    then have ne: "findIndex_from P xs (k + 1) \<noteq> - 1" using Cons.prems by simp
    have lo: "k + 1 \<le> findIndex_from P xs (k + 1)"
      using findIndex_from_lower [of "k + 1" P xs] ne Cons.prems by simp
    from Cons.IH [of "k + 1"] ne Cons.prems
    have ih: "nat (findIndex_from P xs (k + 1) - (k + 1)) < length xs"
      "P (xs ! nat (findIndex_from P xs (k + 1) - (k + 1)))" by simp_all
    have e: "nat (findIndex_from P xs (k + 1) - k) = Suc (nat (findIndex_from P xs (k + 1) - (k + 1)))"
      using lo by simp
    show ?thesis using False ih e by simp
  qed
qed

lemma filter_distinct_nth:
  assumes "distinct (map f xs)" "i < length xs"
  shows "filter (\<lambda>t. f t \<noteq> f (xs ! i)) xs = take i xs @ drop (Suc i) xs"
  using assms
proof (induction xs arbitrary: i)
  case Nil
  then show ?case by simp
next
  case (Cons x xs)
  show ?case
  proof (cases i)
    case 0
    have "\<forall>y \<in> set xs. f y \<noteq> f x" using Cons.prems(1) by (auto simp: image_iff)
    then have "filter (\<lambda>t. f t \<noteq> f x) xs = xs" by (simp add: filter_id_conv)
    then show ?thesis using 0 by simp
  next
    case (Suc j)
    with Cons.prems have j: "j < length xs" and d: "distinct (map f xs)" and n: "f x \<noteq> f (xs ! j)"
      by auto
    from Cons.IH [OF d j] show ?thesis using Suc n by simp
  qed
qed


lemma removeFromPlaylist_missing:
  assumes "\<forall>t \<in> set (playlist s). track_id t \<noteq> trackId"
  shows "removeFromPlaylist trackId s = s"
proof -
  have "findIndex (\<lambda>t. track_id t = trackId) (playlist s) = - 1"
    using assms findIndex_from_missing [of 0 "\<lambda>t. track_id t = trackId" "playlist s"]
    by (simp add: findIndex_def)
  then show ?thesis by (simp add: removeFromPlaylist_def Let_def)
qed

lemma removeFromPlaylist_playlist:
  assumes "distinct (map track_id (playlist s))" "i < length (playlist s)"
  shows "playlist (removeFromPlaylist (track_id (playlist s ! i)) s)
           = take i (playlist s) @ drop (Suc i) (playlist s)"
proof -
  have f: "findIndex (\<lambda>t. track_id t = track_id (playlist s ! i)) (playlist s) = int i"
    using findIndex_from_distinct [OF assms, of 0] by (simp add: findIndex_def)
  show ?thesis
    using filter_distinct_nth [OF assms]
    by (simp add: removeFromPlaylist_def Let_def f)
qed

lemma removeFromPlaylist_index:
  assumes "distinct (map track_id (playlist s))" "i < length (playlist s)"
  shows "currentTrackIndex (removeFromPlaylist (track_id (playlist s ! i)) s)
           = (if currentTrackIndex s = int i then - 1
              else if currentTrackIndex s > int i then currentTrackIndex s - 1
              else currentTrackIndex s)"
proof -
  have f: "findIndex (\<lambda>t. track_id t = track_id (playlist s ! i)) (playlist s) = int i"
    using findIndex_from_distinct [OF assms, of 0] by (simp add: findIndex_def)
  show ?thesis
    by (simp add: removeFromPlaylist_def Let_def f revokeObjectURL_def stopAnimation_fields)
qed

lemma removeFromPlaylist_selected:
  assumes "distinct (map track_id (playlist s))" "i < length (playlist s)"
    and "currentTrackIndex s = int i"
    and "framesOk s" "canvasRef s = Some c" "ctx2d c" "backgroundRef s = Some b"
  shows "idle (removeFromPlaylist (track_id (playlist s ! i)) s)"
    and "map_option paused (audioRef (removeFromPlaylist (track_id (playlist s ! i)) s))
           = map_option (\<lambda>a. True) (audioRef s)"
proof -
  have f: "findIndex (\<lambda>t. track_id t = track_id (playlist s ! i)) (playlist s) = int i"
    using findIndex_from_distinct [OF assms(1,2), of 0] by (simp add: findIndex_def)
  define s1 where "s1 = (if startsWith (url (playlist s ! i)) ''blob:''
                         then revokeObjectURL (url (playlist s ! i)) s else s)"
  define s2 where "s2 = s1\<lparr>audioRef := map_option pause (audioRef s1), currentTrackIndex := - 1\<rparr>"
  have e: "removeFromPlaylist (track_id (playlist s ! i)) s
             = (stopAnimation s2)\<lparr>playlist := take i (playlist s) @ drop (Suc i) (playlist s)\<rparr>"
    using filter_distinct_nth [OF assms(1,2)] assms(3)
    by (simp add: removeFromPlaylist_def Let_def f s1_def s2_def)
  have "framesOk s2" "canvasRef s2 = Some c" "backgroundRef s2 = Some b"
    using assms(4,5,7) by (simp_all add: s2_def s1_def framesOk_def revokeObjectURL_def)
  from stopAnimation_idle [OF this(1,2) assms(6) this(3)]
  show "idle (removeFromPlaylist (track_id (playlist s ! i)) s)"
    by (simp add: e idle_def)
  show "map_option paused (audioRef (removeFromPlaylist (track_id (playlist s ! i)) s))
           = map_option (\<lambda>a. True) (audioRef s)"
    by (simp add: e stopAnimation_fields s2_def s1_def revokeObjectURL_def pause_def
        option.map_comp comp_def)
qed

lemma in_playlist_index:
  assumes "\<not> (\<forall>t \<in> set (playlist s). track_id t \<noteq> trackId)"
  obtains i where "i < length (playlist s)" "trackId = track_id (playlist s ! i)"
  using assms by (auto simp: in_set_conv_nth)

text \<open>
  C5. In a mounted component whose tracks have distinct ids, whose selected index is
  \<open>-1\<close> or valid and whose render loop satisfies its invariant, after
  \<^verbatim>\<open>removeFromPlaylist\<close> with any id: the selected index is again \<open>-1\<close> or a valid
  index into the new playlist; if the id is that of the selected track, the index is
  \<open>-1\<close>, the render loop is stopped (no frame pending, no handle held, canvas empty,
  background offset zero) and the element is paused; if the id is that of a track
  before the selected one, the index is one less and the same track is found at it.
\<close>

theorem removeFromPlaylist_revalidates:
  assumes "distinct (map track_id (playlist s))" and "validSelection s"
    and "framesOk s" and "canvasRef s = Some c" and "ctx2d c" and "backgroundRef s = Some b"
  shows "validSelection (removeFromPlaylist trackId s)
       \<and> (0 \<le> currentTrackIndex s \<and> trackId = track_id (playlist s ! nat (currentTrackIndex s)) \<longrightarrow>
            currentTrackIndex (removeFromPlaylist trackId s) = - 1
            \<and> idle (removeFromPlaylist trackId s)
            \<and> map_option paused (audioRef (removeFromPlaylist trackId s))
                 = map_option (\<lambda>a. True) (audioRef s))
       \<and> (\<forall>i. i < length (playlist s) \<and> trackId = track_id (playlist s ! i)
                \<and> int i < currentTrackIndex s \<longrightarrow>
            currentTrackIndex (removeFromPlaylist trackId s) = currentTrackIndex s - 1
            \<and> playlist (removeFromPlaylist trackId s) ! nat (currentTrackIndex s - 1)
                 = playlist s ! nat (currentTrackIndex s))"
proof (intro conjI impI allI)
  show "validSelection (removeFromPlaylist trackId s)"
  proof (cases "\<forall>t \<in> set (playlist s). track_id t \<noteq> trackId")
    case True
    then show ?thesis using assms(2) by (simp add: removeFromPlaylist_missing)
  next
    case False
    then obtain i where i: "i < length (playlist s)" "trackId = track_id (playlist s ! i)"
      by (rule in_playlist_index)
    show ?thesis
      using assms(2) i(1)
      unfolding validSelection_def i(2) removeFromPlaylist_index [OF assms(1) i(1)]
        removeFromPlaylist_playlist [OF assms(1) i(1)]
      by (auto simp: min_def)
  qed
next
  assume h: "0 \<le> currentTrackIndex s \<and> trackId = track_id (playlist s ! nat (currentTrackIndex s))"
  define i where "i = nat (currentTrackIndex s)"
  have i: "i < length (playlist s)" "currentTrackIndex s = int i" "trackId = track_id (playlist s ! i)"
    using h assms(2) by (auto simp: i_def validSelection_def)
  show "currentTrackIndex (removeFromPlaylist trackId s) = - 1"
    unfolding i(3) removeFromPlaylist_index [OF assms(1) i(1)] using i(2) by simp
  show "idle (removeFromPlaylist trackId s)"
    unfolding i(3) using assms(1) i(1,2) assms(3-6) by (rule removeFromPlaylist_selected(1))
  show "map_option paused (audioRef (removeFromPlaylist trackId s))
                 = map_option (\<lambda>a. True) (audioRef s)"
    unfolding i(3) using assms(1) i(1,2) assms(3-6) by (rule removeFromPlaylist_selected(2))
next
  fix i
  assume h: "i < length (playlist s) \<and> trackId = track_id (playlist s ! i)
                \<and> int i < currentTrackIndex s"
  then have i: "i < length (playlist s)" "trackId = track_id (playlist s ! i)"
    "int i < currentTrackIndex s" by simp_all
  have v: "currentTrackIndex s < int (length (playlist s))"
    using assms(2) i(3) by (auto simp: validSelection_def)
  show "currentTrackIndex (removeFromPlaylist trackId s) = currentTrackIndex s - 1"
    unfolding i(2) removeFromPlaylist_index [OF assms(1) i(1)] using i(3) by simp
  have "(take i (playlist s) @ drop (Suc i) (playlist s)) ! nat (currentTrackIndex s - 1)
          = playlist s ! (Suc i + (nat (currentTrackIndex s - 1) - i))"
    using i(1,3) v by (simp add: nth_append min_def)
  also have "Suc i + (nat (currentTrackIndex s - 1) - i) = nat (currentTrackIndex s)"
    using i(3) by simp
  finally show "playlist (removeFromPlaylist trackId s) ! nat (currentTrackIndex s - 1)
                 = playlist s ! nat (currentTrackIndex s)"
    unfolding i(2) removeFromPlaylist_playlist [OF assms(1) i(1)] .
qed

theorem removeFromPlaylist_revalidates_witness:
  "distinct (map track_id [trackA, trackB, trackC])
   \<and> validSelection (playedAt [trackA, trackB, trackC] 2 False False)
   \<and> framesOk (playedAt [trackA, trackB, trackC] 2 False False)
   \<and> currentTrackIndex (removeFromPlaylist 1 (playedAt [trackA, trackB, trackC] 2 False False)) = 1
   \<and> playlist (removeFromPlaylist 1 (playedAt [trackA, trackB, trackC] 2 False False)) ! 1 = trackC
   \<and> currentTrackIndex (removeFromPlaylist 3 (playedAt [trackA, trackB, trackC] 2 False False)) = - 1
   \<and> idle (removeFromPlaylist 3 (playedAt [trackA, trackB, trackC] 2 False False))
   \<and> validSelection (removeFromPlaylist 3 (playedAt [trackA, trackB, trackC] 2 False False))"
proof -
  let ?s = "playedAt [trackA, trackB, trackC] 2 False False"
  have d: "distinct (map track_id (playlist ?s))"
    by (simp add: playedAt_simps trackA_def trackB_def trackC_def)
  have v: "validSelection ?s" by (simp add: validSelection_def playedAt_simps)
  have f: "framesOk ?s" by (simp add: framesOk_def playedAt_simps)
  have c: "ctx2d \<lparr>width = 800, height = 600, ctx2d = True, rects = []\<rparr>" by simp
  note r = removeFromPlaylist_revalidates [OF d v f playedAt_simps(9) c playedAt_simps(10)]
  have 1: "currentTrackIndex (removeFromPlaylist 1 ?s) = 1
           \<and> playlist (removeFromPlaylist 1 ?s) ! 1 = trackC"
    using r [of 1, THEN conjunct2, THEN conjunct2, THEN spec, of 0]
    by (simp add: playedAt_simps trackA_def trackB_def trackC_def)
  have 2: "currentTrackIndex (removeFromPlaylist 3 ?s) = - 1
           \<and> idle (removeFromPlaylist 3 ?s)"
    using r [of 3, THEN conjunct2, THEN conjunct1]
    by (simp add: playedAt_simps trackA_def trackB_def trackC_def)
  have 3: "validSelection (removeFromPlaylist 3 ?s)"
    using r [of 3, THEN conjunct1] .
  from 1 2 3 v f show ?thesis
    by (simp add: trackA_def trackB_def trackC_def)
qed

subsection \<open>The render loop\<close>

lemma framesOk_cong:
  "frames s' = frames s \<Longrightarrow> animationIdRef s' = animationIdRef s \<Longrightarrow>
   nextFrameId s' = nextFrameId s \<Longrightarrow> framesOk s' = framesOk s"
  by (simp add: framesOk_def)

lemma framesOk_updates:
  "framesOk (playlist_update fp s) = framesOk s"
  "framesOk (currentTrackIndex_update fi s) = framesOk s"
  "framesOk (revoked_update fr s) = framesOk s"
  "framesOk (audioRef_update fa s) = framesOk s"
  "framesOk (timers_update ft s) = framesOk s"
  "framesOk (console_update fc s) = framesOk s"
  by (simp_all add: framesOk_def)

lemma framesOk_empty: "frames s = [] \<Longrightarrow> nextFrameId s \<noteq> 0 \<Longrightarrow> framesOk s"
  by (simp add: framesOk_def)

lemma framesOk_not_running:
  assumes "framesOk s" "\<not> truthy (animationIdRef s)"
  shows "frames s = []"
proof (cases "frames s")
  case Nil
  then show ?thesis .
next
  case (Cons f fs)
  with assms(1) have "animationIdRef s = Some (fst f)" "fst f \<noteq> 0"
    by (simp_all add: framesOk_def)
  with assms(2) show ?thesis by (simp add: truthy_def)
qed

lemma stopAnimation_framesOk: "framesOk s \<Longrightarrow> framesOk (stopAnimation s)"
  using stopAnimation_frames [of s]
  by (intro framesOk_empty) (simp_all add: framesOk_def stopAnimation_fields)

lemma animate_framesOk:
  assumes "frames s = []" "nextFrameId s \<noteq> 0"
  shows "framesOk (animate cl sp r1 r2 s)"
proof -
  have ok: "framesOk s" using assms by (rule framesOk_empty)
  have st: "framesOk (stopAnimation s)" using ok by (rule stopAnimation_framesOk)
  show ?thesis
    using assms ok st
    by (simp add: animate_def requestAnimationFrame_def Let_def framesOk_def
        split: option.splits)
qed

lemma handlePlay_timeout_framesOk:
  "framesOk s \<Longrightarrow> framesOk (handlePlay_timeout cl sp r1 r2 s)"
  using framesOk_not_running [of s] animate_framesOk [of s cl sp r1 r2]
  by (simp add: handlePlay_timeout_def) (simp add: framesOk_def)

lemma playTrackFromPlaylist_framesOk:
  assumes "framesOk s"
  shows "framesOk (playTrackFromPlaylist pl i s)"
proof -
  have "framesOk (s\<lparr>currentTrackIndex := i\<rparr>)"
    using assms by (simp add: framesOk_def)
  then have st: "framesOk (stopAnimation (s\<lparr>currentTrackIndex := i\<rparr>))"
    by (rule stopAnimation_framesOk)
  show ?thesis
    using assms st
    by (simp add: playTrackFromPlaylist_def Let_def revokeObjectURL_def framesOk_def
        ensureAudioContextActive_fields split: option.splits)
qed

lemma play_framesOk: "framesOk (play s) = framesOk s"
  by (rule framesOk_cong) (simp_all add: play_fields)

lemma setupAudioSource_framesOk: "setupAudioSource s = Inr s' \<Longrightarrow> framesOk s' = framesOk s"
  by (rule framesOk_cong) (simp_all add: setupAudioSource_fields)

lemma ensureAudioContextActive_framesOk: "framesOk (ensureAudioContextActive s) = framesOk s"
  by (rule framesOk_cong) (simp_all add: ensureAudioContextActive_fields)

lemma handleEnded_framesOk:
  assumes "framesOk s"
  shows "framesOk (handleEnded s)"
proof -
  have st: "framesOk (stopAnimation s)" using assms by (rule stopAnimation_framesOk)
  have 1: "framesOk (play ((stopAnimation s)\<lparr>audioRef := x\<rparr>))" for x
    using st by (simp add: play_framesOk) (simp add: framesOk_def)
  have 2: "framesOk (playTrackFromPlaylist pl i (stopAnimation s))" for pl i
    using st by (rule playTrackFromPlaylist_framesOk)
  have 3: "framesOk ((stopAnimation s)\<lparr>currentTrackIndex := - 1\<rparr>)"
    using st by (simp add: framesOk_def)
  show ?thesis
    using 1 2 3 by (simp add: handleEnded_def Let_def)
qed

lemma handlePlay_framesOk:
  assumes "framesOk s"
  shows "framesOk (settle s (handlePlay s))"
proof (cases "setupAudioSource (ensureAudioContextActive s)")
  case (Inl e)
  then show ?thesis using assms by (simp add: settle_def handlePlay_def)
next
  case (Inr s1)
  from setupAudioSource_framesOk [OF this] have "framesOk s1"
    using assms by (simp add: ensureAudioContextActive_framesOk)
  then show ?thesis using Inr by (simp add: settle_def handlePlay_def framesOk_def)
qed

lemma handleLoadedData_framesOk:
  assumes "framesOk s"
  shows "framesOk (settle s (handleLoadedData s))"
proof (cases "setupAudioSource s")
  case (Inl e)
  then show ?thesis using assms by (simp add: settle_def handleLoadedData_def)
next
  case (Inr s1)
  from setupAudioSource_framesOk [OF this] show ?thesis
    using Inr assms by (simp add: settle_def handleLoadedData_def play_framesOk)
qed

lemma fireLoadedData_framesOk: "framesOk s \<Longrightarrow> framesOk (fireLoadedData n s)"
  by (induction n arbitrary: s) (simp_all add: handleLoadedData_framesOk)

lemma fireTimer_framesOk: "framesOk s \<Longrightarrow> framesOk (fireTimer t sp r1 r2 s)"
  by (cases t) (simp_all add: fireTimer_def handlePlay_timeout_framesOk
      playTrackFromPlaylist_framesOk)

lemma removeFromPlaylist_framesOk:
  assumes "framesOk s"
  shows "framesOk (removeFromPlaylist i s)"
  using assms
  by (simp add: removeFromPlaylist_def Let_def revokeObjectURL_def framesOk_updates
      stopAnimation_framesOk)

lemma framesOk_frame_due:
  assumes "framesOk s" "frames s = f # fs"
  shows "framesOk (animate (snd f) sp r1 r2 (s\<lparr>frames := fs\<rparr>))"
proof -
  have "fs = []" "nextFrameId s \<noteq> 0" using assms by (simp_all add: framesOk_def)
  then show ?thesis by (intro animate_framesOk) simp_all
qed

lemma step_framesOk: "framesOk s \<Longrightarrow> framesOk (step e s)"
proof (cases e)
  case Play
  assume "framesOk s"
  then show ?thesis using Play by (simp add: handlePlay_framesOk split: option.splits)
next
  case Pause
  assume "framesOk s"
  then show ?thesis using Pause
    by (simp add: handlePause_def stopAnimation_framesOk split: option.splits)
next
  case Ended
  assume "framesOk s"
  then show ?thesis using Ended by (simp add: handleEnded_framesOk split: option.splits)
next
  case LoadedData
  assume ok: "framesOk s"
  have "framesOk (s\<lparr>audioRef := x\<rparr>)" for x using ok by (simp add: framesOk_def)
  then show ?thesis using LoadedData ok
    by (simp add: fireLoadedData_framesOk split: option.splits)
next
  case (ElementStatus p q)
  assume "framesOk s"
  then show ?thesis using ElementStatus by (simp add: framesOk_def)
next
  case (Timeout k sp r1 r2)
  assume ok: "framesOk s"
  have "framesOk (s\<lparr>timers := x\<rparr>)" for x using ok by (simp add: framesOk_def)
  then show ?thesis using Timeout ok by (simp add: fireTimer_framesOk)
next
  case (AnimationFrame sp r1 r2)
  assume "framesOk s"
  then show ?thesis using AnimationFrame
    by (simp add: framesOk_frame_due split: list.splits)
next
  case (ClickTrack i)
  assume "framesOk s"
  then show ?thesis using ClickTrack by (simp add: playTrackFromPlaylist_framesOk)
next
  case (ClickRemove i)
  assume "framesOk s"
  then show ?thesis using ClickRemove by (simp add: removeFromPlaylist_framesOk)
next
  case ClickLoopTrack
  assume "framesOk s"
  then show ?thesis using ClickLoopTrack
    by (simp add: framesOk_def loopTrackBtn_onClick_def Let_def)
next
  case ClickLoopPlaylist
  assume "framesOk s"
  then show ?thesis using ClickLoopPlaylist
    by (simp add: framesOk_def loopPlaylistBtn_onClick_def Let_def)
next
  case ClickVibration
  assume "framesOk s"
  then show ?thesis using ClickVibration
    by (simp add: framesOk_def vibrationToggleBtn_onClick_def)
next
  case ClickPlaylistToggle
  assume "framesOk s"
  then show ?thesis using ClickPlaylistToggle
    by (simp add: framesOk_def playlistToggle_onClick_def)
next
  case (Upload i n u)
  assume "framesOk s"
  then show ?thesis using Upload
    by (simp add: framesOk_def addToPlaylist_def Let_def)
next
  case (LoadedMetadata i d)
  assume "framesOk s"
  then show ?thesis using LoadedMetadata
    by (simp add: framesOk_def handleLoadedMetadata_def)
next
  case (Resize w h)
  assume "framesOk s"
  then show ?thesis using Resize
    by (simp add: framesOk_def handleResize_def)
qed

lemma run_framesOk: "framesOk s \<Longrightarrow> framesOk (run es s)"
  by (induction es arbitrary: s) (simp_all add: step_framesOk)

lemma mounted_framesOk: "framesOk (mounted w h ap)"
  by (simp add: framesOk_def mounted_def Let_def)

lemma handlePlay_timeout_running:
  "truthy (animationIdRef s) \<Longrightarrow> handlePlay_timeout cl sp r1 r2 s = s"
  by (simp add: handlePlay_timeout_def)

text \<open>
  C8. After any sequence of events from the mounted component at most one animation
  frame is pending. The callback that starts the render loop checks
  \<^verbatim>\<open>animationIdRef\<close> before it calls \<^verbatim>\<open>animate\<close>: while a frame is pending (and, in any
  state, while the handle is set) it changes nothing. \<^verbatim>\<open>stopAnimation\<close> leaves no frame
  pending and no handle, empties the canvas, sets the background offset to zero, and a
  second call right after it changes nothing.
\<close>

theorem render_loop_single_frame:
  "length (frames (run es (mounted w h ap))) \<le> 1
   \<and> (frames (run es (mounted w h ap)) \<noteq> [] \<longrightarrow>
        handlePlay_timeout cl sp r1 r2 (run es (mounted w h ap)) = run es (mounted w h ap))
   \<and> frames (stopAnimation (run es (mounted w h ap))) = []
   \<and> (truthy (animationIdRef s) \<longrightarrow> handlePlay_timeout cl sp r1 r2 s = s)
   \<and> stopAnimation (stopAnimation s) = stopAnimation s
   \<and> \<not> truthy (animationIdRef (stopAnimation s))
   \<and> (canvasRef s = Some c \<and> ctx2d c \<longrightarrow>
        map_option rects (canvasRef (stopAnimation s)) = Some [])
   \<and> (backgroundRef s = Some b \<longrightarrow> backgroundRef (stopAnimation s) = Some (0, 0))"
proof -
  let ?s = "run es (mounted w h ap)"
  have ok: "framesOk ?s" using mounted_framesOk by (rule run_framesOk)
  then have 1: "length (frames ?s) \<le> 1" by (simp add: framesOk_def)
  have 2: "handlePlay_timeout cl sp r1 r2 ?s = ?s" if "frames ?s \<noteq> []"
    using framesOk_not_running [OF ok] that handlePlay_timeout_running by blast
  have 3: "frames (stopAnimation ?s) = []"
    using ok by (intro stopAnimation_frames) (simp add: framesOk_def)
  show ?thesis
    using 1 2 3 handlePlay_timeout_running [of s cl sp r1 r2] stopAnimation_idempotent [of s]
      stopAnimation_ref [of s] stopAnimation_canvas [of s c] stopAnimation_background [of s b]
    by blast
qed

theorem render_loop_single_frame_witness:
  "frames running = [(1, \<lparr>c_vw = 800, c_vh = 600, c_vibrationEnabled = True\<rparr>)]
   \<and> truthy (animationIdRef running)
   \<and> handlePlay_timeout \<lparr>c_vw = 800, c_vh = 600, c_vibrationEnabled = True\<rparr>
        fullScale (1 / 4) (3 / 4) running = running
   \<and> frames (stopAnimation running) = []
   \<and> stopAnimation (stopAnimation running) = stopAnimation running
   \<and> map_option rects (canvasRef (stopAnimation running)) = Some []
   \<and> backgroundRef (stopAnimation running) = Some (0, 0)"
proof -
  note t = render_loop_single_frame [of
      "[Upload 1 ''a.mp3'' ''blob:a'', ClickTrack 0, LoadedData, Play,
        Timeout 1 fullScale (1 / 4) (3 / 4)]" 800 600 True
      "\<lparr>c_vw = 800, c_vh = 600, c_vibrationEnabled = True\<rparr>" fullScale "1 / 4" "3 / 4"
      running
      "\<lparr>width = 800, height = 600, ctx2d = True,
        rects = bars \<lparr>c_vw = 800, c_vh = 600, c_vibrationEnabled = True\<rparr> 128 fullScale\<rparr>"
      "shake fullScale 128 (1 / 4) (3 / 4)", folded running_def]
  have tr: "truthy (animationIdRef running)" by (simp add: running_eval truthy_def)
  show ?thesis using t tr by (simp add: running_eval)
qed

subsection \<open>The vibration of the background\<close>

lemma unat_byte: "unat (w :: 8 word) \<le> 255"
  using unsigned_less [of w, where ?'a = nat] by simp

lemma sum_list_bytes: "sum_list (map unat (xs :: 8 word list)) \<le> 255 * length xs"
proof (induction xs)
  case Nil
  then show ?case by simp
next
  case (Cons x xs)
  then show ?case using unat_byte [of x] by simp
qed

lemma intensity_bounds:
  assumes "0 < n" "length d = n"
  shows "0 \<le> intensity d n" and "intensity d n \<le> maxVibration"
proof -
  have n: "0 < real n" using assms(1) by simp
  have "real (sum_list (map unat d)) \<le> real (255 * n)"
    using sum_list_bytes [of d] assms(2) of_nat_le_iff by blast
  then have "real (sum_list (map unat d)) \<le> 255 * real n" by simp
  then have avg: "real (sum_list (map unat d)) / real n \<le> 255"
    using n by (simp add: pos_divide_le_eq)
  have nn: "0 \<le> real (sum_list (map unat d)) / real n" by simp
  show "0 \<le> intensity d n"
    using nn by (simp add: intensity_def maxVibration_def Let_def)
  show "intensity d n \<le> maxVibration"
    using avg by (simp add: intensity_def maxVibration_def Let_def)
qed

lemma jitter_bound:
  assumes "0 \<le> r" "r < 1" "0 \<le> (i :: real)"
  shows "\<bar>(r - 0.5) * 2 * i\<bar> \<le> i"
proof -
  have "\<bar>(r - 0.5) * 2\<bar> \<le> 1" using assms(1,2) by (simp add: abs_le_iff)
  then have "\<bar>(r - 0.5) * 2\<bar> * i \<le> 1 * i" using assms(3) by (rule mult_right_mono)
  then show ?thesis using assms(3) by (simp add: abs_mult)
qed

lemma shake_bounds:
  assumes "0 < n" "length d = n" "0 \<le> r1" "r1 < 1" "0 \<le> r2" "r2 < 1"
  shows "\<bar>fst (shake d n r1 r2)\<bar> \<le> intensity d n"
    and "\<bar>snd (shake d n r1 r2)\<bar> \<le> intensity d n"
  using jitter_bound [OF assms(3,4) intensity_bounds(1) [OF assms(1,2)]]
    jitter_bound [OF assms(5,6) intensity_bounds(1) [OF assms(1,2)]]
  by (simp_all add: shake_def Let_def)

lemma getByteFrequencyData_length: "length (getByteFrequencyData sp d) = length d"
  by (simp add: getByteFrequencyData_def)

lemma animate_background:
  assumes "audioRef s = Some a" "canvasRef s = Some c" "ctx2d c" "analyserRef s = Some an"
    and "dataArrayRef s = Some d" "backgroundRef s = Some b"
  shows "backgroundRef (animate cl sp r1 r2 s) =
           (if \<not> paused a \<and> \<not> ended a \<and> c_vibrationEnabled cl
            then Some (shake (getByteFrequencyData sp d) (bufferLengthRef s) r1 r2)
            else Some (0, 0))"
  using assms stopAnimation_background [OF assms(6)]
  by (simp add: animate_def requestAnimationFrame_def Let_def)

lemma intensity_full_scale: "0 < n \<Longrightarrow> intensity (replicate n 255) n = maxVibration"
  by (simp add: intensity_def Let_def sum_list_replicate)

lemma intensity_silence: "intensity (replicate n 0) n = 0"
  by (simp add: intensity_def Let_def sum_list_replicate)

text \<open>
  The bound on the vibration, for every tick. With the refs mounted, a data array as
  long as the bin count (which is positive), and two random numbers in \<open>[0, 1)\<close>, the
  offset a call of \<^verbatim>\<open>animate\<close> leaves on the background has both components bounded by
  the intensity of the sampled spectrum, which is at most \<^verbatim>\<open>maxVibration = 10\<close>; the
  intensity is 10 for an all-255 spectrum and 0 for silence. The offset is \<open>(0, 0)\<close> when
  the callback was created with vibration disabled, and \<^verbatim>\<open>stopAnimation\<close> sets it to
  \<open>(0, 0)\<close>.
\<close>

theorem animate_vibration_bounded:
  assumes "audioRef s = Some a" "canvasRef s = Some c" "ctx2d c" "analyserRef s = Some an"
    and "dataArrayRef s = Some d" "length d = bufferLengthRef s" "0 < bufferLengthRef s"
    and "backgroundRef s = Some b"
    and "0 \<le> r1" "r1 < 1" "0 \<le> r2" "r2 < 1"
  shows "(\<exists>x y. backgroundRef (animate cl sp r1 r2 s) = Some (x, y)
            \<and> \<bar>x\<bar> \<le> intensity (getByteFrequencyData sp d) (bufferLengthRef s)
            \<and> \<bar>y\<bar> \<le> intensity (getByteFrequencyData sp d) (bufferLengthRef s)
            \<and> \<bar>x\<bar> \<le> maxVibration \<and> \<bar>y\<bar> \<le> maxVibration
            \<and> (\<not> c_vibrationEnabled cl \<longrightarrow> x = 0 \<and> y = 0))
       \<and> maxVibration = 10
       \<and> intensity (replicate (bufferLengthRef s) 255) (bufferLengthRef s) = maxVibration
       \<and> intensity (replicate (bufferLengthRef s) 0) (bufferLengthRef s) = 0
       \<and> backgroundRef (stopAnimation s) = Some (0, 0)"
proof -
  let ?d = "getByteFrequencyData sp d" and ?n = "bufferLengthRef s"
  have len: "length ?d = ?n" using assms(6) by (simp add: getByteFrequencyData_length)
  note i = intensity_bounds [OF assms(7) len]
  note sh = shake_bounds [OF assms(7) len assms(9-12)]
  note bg = animate_background [OF assms(1-5,8), of cl sp r1 r2]
  have "\<exists>x y. backgroundRef (animate cl sp r1 r2 s) = Some (x, y)
            \<and> \<bar>x\<bar> \<le> intensity ?d ?n \<and> \<bar>y\<bar> \<le> intensity ?d ?n
            \<and> \<bar>x\<bar> \<le> maxVibration \<and> \<bar>y\<bar> \<le> maxVibration
            \<and> (\<not> c_vibrationEnabled cl \<longrightarrow> x = 0 \<and> y = 0)"
  proof (cases "\<not> paused a \<and> \<not> ended a \<and> c_vibrationEnabled cl")
    case True
    then have "backgroundRef (animate cl sp r1 r2 s)
                 = Some (fst (shake ?d ?n r1 r2), snd (shake ?d ?n r1 r2))"
      using bg by simp
    moreover have "\<bar>fst (shake ?d ?n r1 r2)\<bar> \<le> maxVibration" "\<bar>snd (shake ?d ?n r1 r2)\<bar> \<le> maxVibration"
      using sh i(2) by linarith+
    ultimately show ?thesis using sh True by blast
  next
    case False
    then have "backgroundRef (animate cl sp r1 r2 s) = Some (0, 0)"
      unfolding bg by (simp only: if_False)
    then show ?thesis using i by (simp add: maxVibration_def)
  qed
  then show ?thesis
    using intensity_full_scale [OF assms(7)] intensity_silence [of ?n]
      stopAnimation_background [OF assms(8)]
    by (simp add: maxVibration_def)
qed

lemma shake_full_scale: "shake fullScale 128 (1 / 4) (3 / 4) = (- 5, 5)"
  by (simp add: shake_def intensity_def maxVibration_def fullScale_def Let_def sum_list_replicate)

theorem animate_vibration_bounded_witness:
  "length fullScale = 128
   \<and> backgroundRef (animate \<lparr>c_vw = 800, c_vh = 600, c_vibrationEnabled = True\<rparr>
         fullScale (1 / 4) (3 / 4) running) = Some (- 5, 5)
   \<and> backgroundRef (animate \<lparr>c_vw = 800, c_vh = 600, c_vibrationEnabled = False\<rparr>
         fullScale (1 / 4) (3 / 4) running) = Some (0, 0)
   \<and> intensity (replicate 128 255) 128 = 10
   \<and> backgroundRef (stopAnimation running) = Some (0, 0)"
proof -
  have c: "ctx2d \<lparr>width = 800, height = 600, ctx2d = True,
     rects = bars \<lparr>c_vw = 800, c_vh = 600, c_vibrationEnabled = True\<rparr> 128 fullScale\<rparr>" by simp
  have l: "length fullScale = bufferLengthRef running" "0 < bufferLengthRef running"
    by (simp_all add: running_eval fullScale_def)
  have r: "(0 :: real) \<le> 1 / 4" "(1 :: real) / 4 < 1" "(0 :: real) \<le> 3 / 4" "(3 :: real) / 4 < 1"
    by simp_all
  note t = animate_vibration_bounded [OF running_audio(1) running_eval(4) c running_audio(2)
      running_eval(7) l running_eval(5) r]
  have g: "getByteFrequencyData fullScale fullScale = fullScale"
    by (simp add: getByteFrequencyData_def)
  have on: "backgroundRef (animate \<lparr>c_vw = 800, c_vh = 600, c_vibrationEnabled = True\<rparr>
         fullScale (1 / 4) (3 / 4) running) = Some (- 5, 5)"
    using animate_background [OF running_audio(1) running_eval(4) c running_audio(2)
      running_eval(7) running_eval(5)]
    by (simp add: g running_eval shake_full_scale)
  have off: "backgroundRef (animate \<lparr>c_vw = 800, c_vh = 600, c_vibrationEnabled = False\<rparr>
         fullScale (1 / 4) (3 / 4) running) = Some (0, 0)"
    using t [of "\<lparr>c_vw = 800, c_vh = 600, c_vibrationEnabled = False\<rparr>" fullScale] by auto
  show ?thesis
    using on off t [of "\<lparr>c_vw = 800, c_vh = 600, c_vibrationEnabled = True\<rparr>" fullScale]
    by (simp add: running_eval fullScale_def)
qed

text \<open>
  C6. The offset a tick computes is bounded by the maximum of 10 in each component (the
  theorem above), and a tick is to leave the offset at \<open>(0, 0)\<close> whenever vibration is
  disabled. The code misses the second part while a loop is running: \<^verbatim>\<open>animate\<close> hands
  itself to \<^verbatim>\<open>requestAnimationFrame\<close>, so a running loop keeps the callback that was
  created when it started, with the value of \<^verbatim>\<open>vibrationEnabled\<close> of that render.
  After a click on the vibration button during playback the flag of the component is
  off, and the next tick still writes the jitter: for a full-scale spectrum and the
  random numbers 1/4 and 3/4 the offset is \<open>(-5, 5)\<close>, not \<open>(0, 0)\<close>, and the frame it
  schedules carries the old flag again.
\<close>

theorem toggle_does_not_reach_running_loop:
  "vibrationEnabled running
   \<and> \<not> vibrationEnabled toggledWhileRunning
   \<and> \<not> vibrationEnabled (step (AnimationFrame fullScale (1 / 4) (3 / 4)) toggledWhileRunning)
   \<and> backgroundRef (step (AnimationFrame fullScale (1 / 4) (3 / 4)) toggledWhileRunning)
        = Some (- 5, 5)
   \<and> frames (step (AnimationFrame fullScale (1 / 4) (3 / 4)) toggledWhileRunning)
        = [(2, \<lparr>c_vw = 800, c_vh = 600, c_vibrationEnabled = True\<rparr>)]"
proof -
  have g: "getByteFrequencyData fullScale fullScale = fullScale"
    by (simp add: getByteFrequencyData_def)
  have v: "vibrationEnabled running"
    by (simp add: running_def fullScale_def run_defs)
  have n: "nextFrameId running = 2" "audioContextRef running = Some Running"
    by (simp_all add: running_def fullScale_def run_defs)
  show ?thesis
    using v n
    by (simp add: toggledWhileRunning_def vibrationToggleBtn_onClick_def running_eval
        running_audio animate_def requestAnimationFrame_def Let_def g shake_full_scale)
qed

subsection \<open>Releasing blob URLs\<close>

text \<open>
  C2. The blob URL of a track is to be released exactly once, when the track is removed
  or its resource replaced, and never while the audio element still has it as its source
  or a track that stays in the playlist still owns it. The code breaks this. After two
  uploads, selecting the first track and then the second makes
  \<^verbatim>\<open>playTrackFromPlaylist\<close> revoke the blob URL of the first track, which is still in
  the playlist: selecting it again gives the element that revoked URL as its source, and
  removing it revokes the URL a second time. Removing the selected track revokes its URL
  while the element still has it as its source.
\<close>

theorem switching_revokes_a_listed_track:
  "playlist switched = [trackA, trackB]
   \<and> url trackA = ''blob:a''
   \<and> revoked switched = [''blob:a'']
   \<and> map_option src (audioRef (step (ClickTrack 0) switched)) = Some ''blob:a''
   \<and> revoked (step (ClickRemove 1) switched) = [''blob:a'', ''blob:a'']
   \<and> map_option src (audioRef (step (ClickRemove 2) switched)) = Some ''blob:b''
   \<and> revoked (step (ClickRemove 2) switched) = [''blob:a'', ''blob:b'']"
  by (simp add: switched_def trackA_def trackB_def eval_defs)


end
